theory Spec2Isabelle
  imports Main "HOL-Library.Word"
begin

section \<open>Strings\<close>

text \<open>
  A JavaScript string is a sequence of UTF-16 code units. Literals of the source are
  written \<open>str ''...''\<close>.
\<close>

type_synonym jschar = "16 word"
type_synonym jsstring = "jschar list"

definition str :: "string \<Rightarrow> jsstring" where
  "str s = map of_char s"

definition comma :: jschar where
  "comma = 0x2C"

text \<open>
  The code units that \<open>String.prototype.trim\<close> strips: the WhiteSpace and LineTerminator
  productions of ECMAScript (tab, LF, VT, FF, CR, space, NBSP, the Unicode space separators,
  LS, PS and the byte order mark).
\<close>

definition isWhiteSpace :: "jschar \<Rightarrow> bool" where
  "isWhiteSpace c \<longleftrightarrow>
     c = 0x09 \<or> c = 0x0A \<or> c = 0x0B \<or> c = 0x0C \<or> c = 0x0D \<or> c = 0x20 \<or> c = 0xA0 \<or>
     c = 0x1680 \<or> (0x2000 \<le> c \<and> c \<le> 0x200A) \<or> c = 0x2028 \<or> c = 0x2029 \<or>
     c = 0x202F \<or> c = 0x205F \<or> c = 0x3000 \<or> c = 0xFEFF"

definition trim :: "jsstring \<Rightarrow> jsstring" where
  "trim s = rev (dropWhile isWhiteSpace (rev (dropWhile isWhiteSpace s)))"

text \<open>
  \<open>s.split(sep)\<close> for a one-character separator: \<open>pieces\<close> returns the piece before the
  first separator and the pieces after it, so the result is never empty
  (\<open>"".split(",")\<close> is \<open>[""]\<close>).
\<close>

fun pieces :: "jsstring \<Rightarrow> jschar \<Rightarrow> jsstring \<times> jsstring list" where
  "pieces [] sep = ([], [])"
| "pieces (c # cs) sep =
     (let (p, ps) = pieces cs sep
      in if c = sep then ([], p # ps) else (c # p, ps))"

definition split :: "jsstring \<Rightarrow> jschar \<Rightarrow> jsstring list" where
  "split s sep = (let (p, ps) = pieces s sep in p # ps)"

text \<open>\<open>xs.join(",")\<close> on an array of strings; the source never calls it, the round trip does.\<close>

fun join :: "jsstring list \<Rightarrow> jschar \<Rightarrow> jsstring" where
  "join [] sep = []"
| "join [x] sep = x"
| "join (x # y # ys) sep = x @ sep # join (y # ys) sep"

text \<open>
  \<open>formData.skills.split(',').map(s => s.trim()).filter(s => s !== '')\<close>,
  the first statement of the form's \<open>handleSubmit\<close>.
\<close>

definition parsedSkills :: "jsstring \<Rightarrow> jsstring list" where
  "parsedSkills skillsText = filter (\<lambda>s. s \<noteq> []) (map trim (split skillsText comma))"


section \<open>Data model\<close>

text \<open>
  The keys of \<open>Experience\<close>, \<open>Education\<close> and \<open>Project\<close>. \<open>handleArrayChange\<close> accepts any
  of them for any of the three lists, and \<open>addEntry\<close> appends \<open>{}\<close>, so at run time a
  sub-record is an object that has some of these keys.
\<close>

datatype subField =
  Title | Company | Dates | Description | Degree | Institution | Name
  | Technologies | ProjectUrl | GithubUrl

type_synonym entry = "subField \<rightharpoonup> jsstring"

text \<open>
  A slot of a JavaScript array: a hole (no property at that index), the value \<open>undefined\<close>,
  or an object. Arrays built by the form hold objects only; holes and \<open>undefined\<close> come
  from an assignment past the end and from spreading an array with holes.
\<close>

datatype element = Empty | Undefined | Object entry

datatype listKind = Experience | Education | Projects

text \<open>
  \<open>PortfolioData\<close> and the form's draft \<open>Omit<PortfolioData, 'skills'> & { skills: string }\<close>
  differ in the type of \<open>skills\<close> only.
\<close>

record 'skills portfolio =
  name :: jsstring
  title :: jsstring
  email :: jsstring
  phone :: jsstring
  location :: jsstring
  bio :: jsstring
  profilePicture :: jsstring
  linkedin :: jsstring
  github :: jsstring
  website :: jsstring
  twitter :: jsstring
  skills :: 'skills
  experience :: "element list"
  education :: "element list"
  projects :: "element list"

type_synonym PortfolioData = "jsstring list portfolio"
type_synonym FormData = "jsstring portfolio"

text \<open>The initial value of \<open>useState\<close> in \<open>PortfolioForm\<close>.\<close>

definition initialFormData :: FormData where
  "initialFormData =
     \<lparr>name = [], title = [], email = [], phone = [], location = [], bio = [],
      profilePicture = [], linkedin = [], github = [], website = [], twitter = [],
      skills = [], experience = [], education = [], projects = []\<rparr>"

text \<open>\<open>prevData[field]\<close> and \<open>{ ...prevData, [field]: xs }\<close> for the three list fields.\<close>

fun getList :: "listKind \<Rightarrow> 'a portfolio \<Rightarrow> element list" where
  "getList Experience d = experience d"
| "getList Education d = education d"
| "getList Projects d = projects d"

fun setList :: "listKind \<Rightarrow> element list \<Rightarrow> 'a portfolio \<Rightarrow> 'a portfolio" where
  "setList Experience xs d = d\<lparr>experience := xs\<rparr>"
| "setList Education xs d = d\<lparr>education := xs\<rparr>"
| "setList Projects xs d = d\<lparr>projects := xs\<rparr>"


section \<open>Array and object primitives\<close>

text \<open>\<open>[...xs]\<close>: the iterator reads a hole as \<open>undefined\<close>.\<close>

definition spread :: "element list \<Rightarrow> element list" where
  "spread xs = map (\<lambda>e. case e of Empty \<Rightarrow> Undefined | _ \<Rightarrow> e) xs"

text \<open>\<open>{ ...x }\<close>: spreading \<open>undefined\<close> gives the empty object.\<close>

definition spreadObject :: "element \<Rightarrow> entry" where
  "spreadObject x = (case x of Object e \<Rightarrow> e | _ \<Rightarrow> Map.empty)"

text \<open>
  Array indices are the integers from 0 to \<open>2^32 - 2\<close>; any other number is an ordinary
  property key, which neither \<open>length\<close>, nor a spread, nor \<open>map\<close> and \<open>filter\<close> see.
  The index is an integer here; the source's \<open>number\<close> also has fractions, which are
  property keys like the negative numbers.
\<close>

definition isArrayIndex :: "int \<Rightarrow> bool" where
  "isArrayIndex i \<longleftrightarrow> 0 \<le> i \<and> i \<le> 4294967294"

text \<open>\<open>xs[i]\<close> as a value: a hole, a position past the end and a missing key read as \<open>undefined\<close>.\<close>

definition readIndex :: "element list \<Rightarrow> int \<Rightarrow> element" where
  "readIndex xs i =
     (if 0 \<le> i \<and> i < int (length xs)
      then (case xs ! nat i of Empty \<Rightarrow> Undefined | e \<Rightarrow> e)
      else Undefined)"

text \<open>
  \<open>xs[i] = v\<close>: inside the array the slot is replaced; past the end the array grows to
  length \<open>i + 1\<close> with holes in between; a key that is not an array index leaves the slots alone.
\<close>

definition assignIndex :: "element list \<Rightarrow> int \<Rightarrow> element \<Rightarrow> element list" where
  "assignIndex xs i v =
     (if 0 \<le> i \<and> i < int (length xs) then xs[nat i := v]
      else if isArrayIndex i then xs @ replicate (nat i - length xs) Empty @ [v]
      else xs)"

text \<open>
  \<open>xs.filter((_, i) => p(i))\<close>: \<open>filter\<close> skips holes, calls the predicate with the
  position in the original array, and returns a dense array.
\<close>

definition filterIndex :: "(int \<Rightarrow> bool) \<Rightarrow> element list \<Rightarrow> element list" where
  "filterIndex p xs =
     map fst (filter (\<lambda>(e, i). e \<noteq> Empty \<and> p (int i)) (zip xs [0..<length xs]))"


section \<open>The form: \<open>PortfolioForm\<close>\<close>

datatype formField =
  name_input | title_input | email_input | phone_input | location_input | bio_input
  | profilePicture_input | linkedin_input | github_input | website_input | twitter_input
  | skills_input

text \<open>\<open>handleChange\<close>: \<open>{ ...prevData, [name]: value }\<close> for the inputs that use it.\<close>

fun handleChange :: "formField \<Rightarrow> jsstring \<Rightarrow> FormData \<Rightarrow> FormData" where
  "handleChange name_input v d = d\<lparr>name := v\<rparr>"
| "handleChange title_input v d = d\<lparr>title := v\<rparr>"
| "handleChange email_input v d = d\<lparr>email := v\<rparr>"
| "handleChange phone_input v d = d\<lparr>phone := v\<rparr>"
| "handleChange location_input v d = d\<lparr>location := v\<rparr>"
| "handleChange bio_input v d = d\<lparr>bio := v\<rparr>"
| "handleChange profilePicture_input v d = d\<lparr>profilePicture := v\<rparr>"
| "handleChange linkedin_input v d = d\<lparr>linkedin := v\<rparr>"
| "handleChange github_input v d = d\<lparr>github := v\<rparr>"
| "handleChange website_input v d = d\<lparr>website := v\<rparr>"
| "handleChange twitter_input v d = d\<lparr>twitter := v\<rparr>"
| "handleChange skills_input v d = d\<lparr>skills := v\<rparr>"

text \<open>
  \<open>handleArrayChange\<close>: copy the list, overwrite slot \<open>index\<close> with a copy of the object
  there plus \<open>[subField]: value\<close>, store the copy.
\<close>

definition handleArrayChange ::
  "int \<Rightarrow> listKind \<Rightarrow> subField \<Rightarrow> jsstring \<Rightarrow> FormData \<Rightarrow> FormData" where
  "handleArrayChange index field subField value prevData =
     (let newArray = spread (getList field prevData);
          newArray = assignIndex newArray index
                       (Object ((spreadObject (readIndex newArray index))(subField \<mapsto> value)))
      in setList field newArray prevData)"

text \<open>\<open>addEntry\<close>: \<open>[...prevData[field], {}]\<close>.\<close>

definition addEntry :: "listKind \<Rightarrow> FormData \<Rightarrow> FormData" where
  "addEntry field prevData =
     setList field (spread (getList field prevData) @ [Object Map.empty]) prevData"

text \<open>\<open>removeEntry\<close>: \<open>prevData[field].filter((_, i) => i !== index)\<close>.\<close>

definition removeEntry :: "listKind \<Rightarrow> int \<Rightarrow> FormData \<Rightarrow> FormData" where
  "removeEntry field index prevData =
     setList field (filterIndex (\<lambda>i. i \<noteq> index) (getList field prevData)) prevData"

text \<open>
  The form's \<open>handleSubmit\<close> builds \<open>{ ...formData, skills: parsedSkills }\<close> and hands it to
  \<open>onSubmit\<close>; \<open>submittedData\<close> is that object.
\<close>

definition submittedData :: "FormData \<Rightarrow> PortfolioData" where
  "submittedData formData =
     \<lparr>name = name formData, title = title formData, email = email formData,
      phone = phone formData, location = location formData, bio = bio formData,
      profilePicture = profilePicture formData, linkedin = linkedin formData,
      github = github formData, website = website formData, twitter = twitter formData,
      skills = parsedSkills (skills formData),
      experience = experience formData, education = education formData,
      projects = projects formData\<rparr>"

text \<open>A list of the form is a sequence of sub-records when every slot holds an object.\<close>

definition subRecords :: "element list \<Rightarrow> bool" where
  "subRecords xs \<longleftrightarrow> list_all (\<lambda>e. case e of Object _ \<Rightarrow> True | _ \<Rightarrow> False) xs"


section \<open>The application state: \<open>App\<close>\<close>

text \<open>
  The three \<open>useState\<close> cells of \<open>App\<close>, and the state cell of \<open>PortfolioForm\<close>, which
  exists while that component is mounted.
\<close>

record appState =
  portfolioData :: "PortfolioData option"
  selectedTemplate :: jsstring
  showFullPortfolio :: bool
  formData :: "FormData option"

definition handleSubmit :: "PortfolioData \<Rightarrow> appState \<Rightarrow> appState" where
  "handleSubmit data s = s\<lparr>portfolioData := Some data, showFullPortfolio := False\<rparr>"

definition handleCardClick :: "appState \<Rightarrow> appState" where
  "handleCardClick s = s\<lparr>showFullPortfolio := True\<rparr>"

definition handleBackToForm :: "appState \<Rightarrow> appState" where
  "handleBackToForm s = s\<lparr>showFullPortfolio := False, portfolioData := None\<rparr>"

text \<open>The card's \<open>onReset\<close> is \<open>() => setPortfolioData(null)\<close>.\<close>

definition onReset :: "appState \<Rightarrow> appState" where
  "onReset s = s\<lparr>portfolioData := None\<rparr>"

definition setSelectedTemplate :: "jsstring \<Rightarrow> appState \<Rightarrow> appState" where
  "setSelectedTemplate t s = s\<lparr>selectedTemplate := t\<rparr>"

text \<open>
  What \<open>App\<close> returns: the full page when \<open>showFullPortfolio && portfolioData\<close>, else the
  card when \<open>portfolioData\<close>, else the form.
\<close>

datatype displayMode = EDITING | SUMMARY | FULL

definition displayMode :: "appState \<Rightarrow> displayMode" where
  "displayMode s =
     (if showFullPortfolio s \<and> portfolioData s \<noteq> None then FULL
      else if portfolioData s \<noteq> None then SUMMARY
      else EDITING)"

text \<open>
  After a handler has run, React renders \<open>App\<close> again. \<open>PortfolioForm\<close> is an element of
  the third branch only: when another branch is returned the form is unmounted and its
  state is dropped, and when the third branch is returned with no form mounted, a new one
  is mounted with the initial value of its \<open>useState\<close>.
\<close>

definition commit :: "appState \<Rightarrow> appState" where
  "commit s =
     (case portfolioData s of
        Some _ \<Rightarrow> s\<lparr>formData := None\<rparr>
      | None \<Rightarrow> (case formData s of
                   None \<Rightarrow> s\<lparr>formData := Some initialFormData\<rparr>
                 | Some _ \<Rightarrow> s))"

definition initialApp :: appState where
  "initialApp =
     commit \<lparr>portfolioData = None, selectedTemplate = str ''template1'',
             showFullPortfolio = False, formData = None\<rparr>"

text \<open>
  The user's actions. Each belongs to a control of one of the three views: the form's
  inputs and buttons, the card and its Reset button, the full page's Back button.
\<close>

datatype event =
  Change formField jsstring
  | ArrayChange int listKind subField jsstring
  | AddEntry listKind
  | RemoveEntry listKind int
  | SelectTemplate jsstring
  | Submit
  | CardClick
  | Reset
  | BackToForm

text \<open>The inputs the form renders for an entry of each list.\<close>

fun entryInputs :: "listKind \<Rightarrow> subField list" where
  "entryInputs Experience = [Title, Company, Dates, Description]"
| "entryInputs Education = [Degree, Institution, Dates, Description]"
| "entryInputs Projects = [Name, Description, Technologies, ProjectUrl, GithubUrl]"

text \<open>The form renders inputs and a remove button for position \<open>i\<close> when an object is there.\<close>

definition entryShown :: "element list \<Rightarrow> int \<Rightarrow> bool" where
  "entryShown xs i \<longleftrightarrow>
     0 \<le> i \<and> i < int (length xs) \<and> (case xs ! nat i of Object _ \<Rightarrow> True | _ \<Rightarrow> False)"

definition onForm :: "(FormData \<Rightarrow> FormData) \<Rightarrow> appState \<Rightarrow> appState option" where
  "onForm f s =
     (if displayMode s = EDITING
      then map_option (\<lambda>d. s\<lparr>formData := Some (f d)\<rparr>) (formData s)
      else None)"

text \<open>
  The handler an action runs, \<open>None\<close> when the control is not on the screen.
\<close>

fun handler :: "event \<Rightarrow> appState \<Rightarrow> appState option" where
  "handler (Change f v) s = onForm (handleChange f v) s"
| "handler (ArrayChange i k f v) s =
     (case formData s of
        None \<Rightarrow> None
      | Some d \<Rightarrow>
          if entryShown (getList k d) i \<and> f \<in> set (entryInputs k)
          then onForm (handleArrayChange i k f v) s else None)"
| "handler (AddEntry k) s = onForm (addEntry k) s"
| "handler (RemoveEntry k i) s =
     (case formData s of
        None \<Rightarrow> None
      | Some d \<Rightarrow> if entryShown (getList k d) i then onForm (removeEntry k i) s else None)"
| "handler (SelectTemplate t) s =
     (if displayMode s = EDITING \<and> formData s \<noteq> None
         \<and> (t = str ''template1'' \<or> t = str ''template2'')
      then Some (setSelectedTemplate t s) else None)"
| "handler Submit s =
     (if displayMode s = EDITING
      then map_option (\<lambda>d. handleSubmit (submittedData d) s) (formData s)
      else None)"
| "handler CardClick s = (if displayMode s = SUMMARY then Some (handleCardClick s) else None)"
| "handler Reset s = (if displayMode s = SUMMARY then Some (onReset s) else None)"
| "handler BackToForm s = (if displayMode s = FULL then Some (handleBackToForm s) else None)"

definition fire :: "appState \<Rightarrow> event \<Rightarrow> appState option" where
  "fire s e = map_option commit (handler e s)"

inductive reachable :: "appState \<Rightarrow> bool" where
  start: "reachable initialApp"
| step: "reachable s \<Longrightarrow> fire s e = Some s' \<Longrightarrow> reachable s'"

fun run :: "appState \<Rightarrow> event list \<Rightarrow> appState option" where
  "run s [] = Some s"
| "run s (e # es) = (case fire s e of None \<Rightarrow> None | Some s' \<Rightarrow> run s' es)"


section \<open>The views\<close>

text \<open>
  A view is the sequence, in document order, of what it puts on the page: headings and
  other literal text of the markup, the image, and the places where a value of the record
  is written as text or as the target of a link. Class names and icons are left out.
\<close>

datatype shown =
  data_name | data_title | data_bio | data_email | data_phone | data_location
  | data_linkedin | data_github | data_website | data_twitter
  | data_skill nat
  | data_entry listKind nat subField

datatype part =
  Heading jsstring
  | Label jsstring
  | Img jsstring
  | Text shown jsstring
  | Link shown jsstring

text \<open>\<open>x && ...\<close> on a property that is a string or missing, and \<open>{x}\<close> as text.\<close>

definition truthy :: "jsstring option \<Rightarrow> bool" where
  "truthy x \<longleftrightarrow> (case x of None \<Rightarrow> False | Some v \<Rightarrow> v \<noteq> [])"

definition textOf :: "jsstring option \<Rightarrow> jsstring" where
  "textOf x = (case x of None \<Rightarrow> [] | Some v \<Rightarrow> v)"

text \<open>
  \<open>data.profilePicture || `<base>${data.name ? data.name.charAt(0) : '?'}`\<close>
\<close>

definition imageSrc :: "jsstring \<Rightarrow> 'a portfolio \<Rightarrow> jsstring" where
  "imageSrc base data =
     (if profilePicture data \<noteq> [] then profilePicture data
      else base @ (if name data \<noteq> [] then take 1 (name data) else str ''?''))"

text \<open>
  \<open>xs.map((x, index) => ...)\<close> inside JSX: a hole is skipped and renders nothing, and
  reading a property of \<open>undefined\<close> throws a TypeError, which is the result \<open>None\<close>.
\<close>

fun mapEntries :: "(nat \<Rightarrow> entry \<Rightarrow> part list) \<Rightarrow> nat \<Rightarrow> element list \<Rightarrow> part list option" where
  "mapEntries f i [] = Some []"
| "mapEntries f i (Empty # xs) = mapEntries f (Suc i) xs"
| "mapEntries f i (Undefined # xs) = None"
| "mapEntries f i (Object e # xs) = map_option ((@) (f i e)) (mapEntries f (Suc i) xs)"

text \<open>\<open>{xs && xs.length > 0 && (<section> heading, xs.map(...) </section>)}\<close>\<close>

definition listSection ::
  "jsstring \<Rightarrow> (nat \<Rightarrow> entry \<Rightarrow> part list) \<Rightarrow> element list \<Rightarrow> part list option" where
  "listSection heading f xs =
     (if length xs > 0 then map_option ((#) (Heading heading)) (mapEntries f 0 xs)
      else Some [])"

definition skillSpans :: "jsstring list \<Rightarrow> part list" where
  "skillSpans xs = map (\<lambda>(index, skill). Text (data_skill index) skill) (zip [0..<length xs] xs)"

definition skillsSection :: "jsstring list \<Rightarrow> part list" where
  "skillsSection xs = (if length xs > 0 then Heading (str ''Skills'') # skillSpans xs else [])"

definition contactItems :: "PortfolioData \<Rightarrow> part list" where
  "contactItems data =
     (if email data \<noteq> [] then [Text data_email (email data)] else [])
     @ (if phone data \<noteq> [] then [Text data_phone (phone data)] else [])
     @ (if location data \<noteq> [] then [Text data_location (location data)] else [])"

subsection \<open>The summary card\<close>

definition ProfileCard :: "PortfolioData \<Rightarrow> part list" where
  "ProfileCard data =
     [Label (str ''Reset''),
      Img (imageSrc (str ''https://placehold.co/120x120/E0F2F7/0288D1?text='') data),
      Text data_name (name data), Text data_title (title data), Text data_bio (bio data)]
     @ (if linkedin data \<noteq> [] then [Link data_linkedin (linkedin data)] else [])
     @ (if github data \<noteq> [] then [Link data_github (github data)] else [])
     @ (if website data \<noteq> [] then [Link data_website (website data)] else [])
     @ [Label (str ''Click to view full portfolio'')]"

subsection \<open>Template 1\<close>

definition Template1_experience :: "nat \<Rightarrow> entry \<Rightarrow> part list" where
  "Template1_experience index exp =
     [Text (data_entry Experience index Title) (textOf (exp Title)), Label (str '' at ''),
      Text (data_entry Experience index Company) (textOf (exp Company)),
      Text (data_entry Experience index Dates) (textOf (exp Dates)),
      Text (data_entry Experience index Description) (textOf (exp Description))]"

definition Template1_education :: "nat \<Rightarrow> entry \<Rightarrow> part list" where
  "Template1_education index edu =
     [Text (data_entry Education index Degree) (textOf (edu Degree)), Label (str '' from ''),
      Text (data_entry Education index Institution) (textOf (edu Institution)),
      Text (data_entry Education index Dates) (textOf (edu Dates))]
     @ (if truthy (edu Description)
        then [Text (data_entry Education index Description) (textOf (edu Description))] else [])"

definition Template1_project :: "nat \<Rightarrow> entry \<Rightarrow> part list" where
  "Template1_project index project =
     [Text (data_entry Projects index Name) (textOf (project Name)),
      Text (data_entry Projects index Description) (textOf (project Description))]
     @ (if truthy (project Technologies)
        then [Label (str ''Technologies:''),
              Text (data_entry Projects index Technologies) (textOf (project Technologies))]
        else [])
     @ (if truthy (project ProjectUrl)
        then [Link (data_entry Projects index ProjectUrl) (textOf (project ProjectUrl)),
              Label (str ''Live Demo'')]
        else [])
     @ (if truthy (project GithubUrl)
        then [Link (data_entry Projects index GithubUrl) (textOf (project GithubUrl)),
              Label (str ''GitHub Repo'')]
        else [])"

definition Template1_social :: "PortfolioData \<Rightarrow> part list" where
  "Template1_social data =
     (if linkedin data \<noteq> []
      then [Link data_linkedin (linkedin data), Label (str ''LinkedIn'')] else [])
     @ (if github data \<noteq> []
        then [Link data_github (github data), Label (str ''GitHub'')] else [])
     @ (if website data \<noteq> []
        then [Link data_website (website data), Label (str ''Website'')] else [])
     @ (if twitter data \<noteq> []
        then [Link data_twitter (twitter data), Label (str ''Twitter'')] else [])"

definition Template1 :: "PortfolioData \<Rightarrow> part list option" where
  "Template1 data =
     Option.bind (listSection (str ''Experience'') Template1_experience (experience data))
       (\<lambda>experienceSection.
     Option.bind (listSection (str ''Education'') Template1_education (education data))
       (\<lambda>educationSection.
     Option.bind (listSection (str ''Projects'') Template1_project (projects data))
       (\<lambda>projectsSection.
     Some
       ([Text data_name (name data), Text data_title (title data),
         Img (imageSrc (str ''https://placehold.co/150x150/E0F2F7/0288D1?text='') data),
         Heading (str ''About Me''), Text data_bio (bio data),
         Heading (str ''Contact'')]
        @ contactItems data
        @ [Heading (str ''Social'')]
        @ Template1_social data
        @ skillsSection (skills data)
        @ experienceSection @ educationSection @ projectsSection))))"

subsection \<open>Template 2\<close>

definition Template2_experience :: "nat \<Rightarrow> entry \<Rightarrow> part list" where
  "Template2_experience index exp =
     [Text (data_entry Experience index Title) (textOf (exp Title)),
      Text (data_entry Experience index Company) (textOf (exp Company)),
      Text (data_entry Experience index Dates) (textOf (exp Dates)),
      Text (data_entry Experience index Description) (textOf (exp Description))]"

definition Template2_education :: "nat \<Rightarrow> entry \<Rightarrow> part list" where
  "Template2_education index edu =
     [Text (data_entry Education index Degree) (textOf (edu Degree)),
      Text (data_entry Education index Institution) (textOf (edu Institution)),
      Text (data_entry Education index Dates) (textOf (edu Dates))]
     @ (if truthy (edu Description)
        then [Text (data_entry Education index Description) (textOf (edu Description))] else [])"

definition Template2_project :: "nat \<Rightarrow> entry \<Rightarrow> part list" where
  "Template2_project index project =
     [Text (data_entry Projects index Name) (textOf (project Name)),
      Text (data_entry Projects index Description) (textOf (project Description))]
     @ (if truthy (project Technologies)
        then [Label (str ''Technologies:''),
              Text (data_entry Projects index Technologies) (textOf (project Technologies))]
        else [])
     @ (if truthy (project ProjectUrl)
        then [Link (data_entry Projects index ProjectUrl) (textOf (project ProjectUrl)),
              Label (str ''Live Demo'')]
        else [])
     @ (if truthy (project GithubUrl)
        then [Link (data_entry Projects index GithubUrl) (textOf (project GithubUrl)),
              Label (str ''GitHub Repo'')]
        else [])"

definition Template2_social :: "PortfolioData \<Rightarrow> part list" where
  "Template2_social data =
     (if linkedin data \<noteq> [] then [Link data_linkedin (linkedin data)] else [])
     @ (if github data \<noteq> [] then [Link data_github (github data)] else [])
     @ (if website data \<noteq> [] then [Link data_website (website data)] else [])
     @ (if twitter data \<noteq> [] then [Link data_twitter (twitter data)] else [])"

definition Template2 :: "PortfolioData \<Rightarrow> part list option" where
  "Template2 data =
     Option.bind (listSection (str ''Experience'') Template2_experience (experience data))
       (\<lambda>experienceSection.
     Option.bind (listSection (str ''Education'') Template2_education (education data))
       (\<lambda>educationSection.
     Option.bind (listSection (str ''Projects'') Template2_project (projects data))
       (\<lambda>projectsSection.
     Some
       ([Img (imageSrc (str ''https://placehold.co/180x180/0288D1/FFFFFF?text='') data),
         Text data_name (name data), Text data_title (title data)]
        @ Template2_social data
        @ [Heading (str ''About Me''), Text data_bio (bio data),
           Heading (str ''Contact'')]
        @ contactItems data
        @ skillsSection (skills data)
        @ experienceSection @ educationSection @ projectsSection))))"

text \<open>\<open>PortfolioPage\<close>: \<open>template === 'template2' ? Template2 : Template1\<close>.\<close>

definition PortfolioPage :: "PortfolioData \<Rightarrow> jsstring \<Rightarrow> part list option" where
  "PortfolioPage data template =
     (if template = str ''template2'' then Template2 data else Template1 data)"

text \<open>What a view shows of the record: its text and link parts.\<close>

fun isData :: "part \<Rightarrow> bool" where
  "isData (Text _ _) = True"
| "isData (Link _ _) = True"
| "isData _ = False"


section \<open>Example states\<close>

text \<open>
  A form in which the skills text has been typed, a draft with two experience entries, and
  a submitted record.
\<close>

definition exampleApp :: appState where
  "exampleApp =
     \<lparr>portfolioData = None, selectedTemplate = str ''template1'', showFullPortfolio = False,
      formData = Some (initialFormData\<lparr>skills := str '' React, , Node.js ,Node.js''\<rparr>)\<rparr>"

definition oneJob :: FormData where
  "oneJob = initialFormData\<lparr>experience := [Object [Title \<mapsto> str ''Dev''], Object Map.empty]\<rparr>"

definition exampleData :: PortfolioData where
  "exampleData =
     \<lparr>name = str ''Ada'', title = str ''Engineer'', email = [], phone = [], location = [],
      bio = [], profilePicture = [], linkedin = str ''https://linkedin.com/in/ada'',
      github = [], website = [], twitter = str ''https://twitter.com/ada'',
      skills = [str ''React''],
      experience = [], education = [Object [Degree \<mapsto> str ''BSc'']],
      projects = [Object [Name \<mapsto> str ''Engine'', ProjectUrl \<mapsto> str ''https://e.org'']]\<rparr>"

text \<open>A session that fills the form, submits it and opens the full page.\<close>

definition session :: "event list" where
  "session =
     [Change name_input (str ''Ada''), Change skills_input (str ''React, SQL''),
      AddEntry Experience, ArrayChange 0 Experience Title (str ''Dev''),
      SelectTemplate (str ''template2''), Submit, CardClick]"


section \<open>Observations on views and states\<close>

text \<open>A view displays a datum when it has a text or link part for it.\<close>

definition displays :: "part list \<Rightarrow> shown \<Rightarrow> bool" where
  "displays ps k \<longleftrightarrow>
     list_ex (\<lambda>x. case x of Text k' _ \<Rightarrow> k' = k | Link k' _ \<Rightarrow> k' = k | _ \<Rightarrow> False) ps"

text \<open>The heading both templates give the section of each list.\<close>

fun sectionHeading :: "listKind \<Rightarrow> jsstring" where
  "sectionHeading Experience = str ''Experience''"
| "sectionHeading Education = str ''Education''"
| "sectionHeading Projects = str ''Projects''"

text \<open>Every list of a mounted form is a sequence of sub-records.\<close>

definition formLists :: "appState \<Rightarrow> bool" where
  "formLists s \<longleftrightarrow>
     (case formData s of None \<Rightarrow> True
      | Some d \<Rightarrow> subRecords (experience d) \<and> subRecords (education d) \<and> subRecords (projects d))"


section \<open>Splitting, joining and trimming\<close>

lemma pieces_no_sep:
  "sep \<notin> set (fst (pieces s sep)) \<and> (\<forall>p \<in> set (snd (pieces s sep)). sep \<notin> set p)"
  by (induction s) (auto simp: case_prod_beta)

lemma split_no_sep: "p \<in> set (split s sep) \<Longrightarrow> sep \<notin> set p"
  using pieces_no_sep [of sep s] by (auto simp: split_def case_prod_beta)

lemma split_not_Nil: "split s sep \<noteq> []"
  by (simp add: split_def split: prod.splits)

lemma join_Cons: "join (x # xs) sep = (if xs = [] then x else x @ sep # join xs sep)"
  by (cases xs) simp_all

lemma join_split: "join (split s sep) sep = s"
proof (induction s)
  case Nil
  show ?case by (simp add: split_def)
next
  case (Cons c cs)
  then show ?case
    by (auto simp: split_def join_Cons split: prod.splits if_splits)
qed

lemma pieces_free: "sep \<notin> set x \<Longrightarrow> pieces x sep = (x, [])"
  by (induction x) auto

lemma pieces_append:
  "sep \<notin> set x \<Longrightarrow> pieces (x @ sep # r) sep = (x, split r sep)"
  by (induction x) (auto simp: split_def split: prod.splits)

lemma split_join:
  "xs \<noteq> [] \<Longrightarrow> \<forall>x \<in> set xs. sep \<notin> set x \<Longrightarrow> split (join xs sep) sep = xs"
proof (induction xs sep rule: join.induct)
  case (1 sep)
  then show ?case by simp
next
  case (2 x sep)
  then show ?case by (simp add: split_def pieces_free)
next
  case (3 x y ys sep)
  then show ?case by (simp add: split_def pieces_append)
qed

lemma trim_prefix: "\<exists>n. trim s = take n (dropWhile isWhiteSpace s)"
proof -
  let ?t = "dropWhile isWhiteSpace s"
  have "dropWhile isWhiteSpace (rev ?t) = drop (length (takeWhile isWhiteSpace (rev ?t))) (rev ?t)"
    by (rule dropWhile_eq_drop)
  then show ?thesis
    by (auto simp: trim_def drop_rev)
qed

lemma set_trim: "set (trim s) \<subseteq> set s"
proof -
  obtain n where "trim s = take n (dropWhile isWhiteSpace s)"
    using trim_prefix by blast
  then show ?thesis
    by (metis set_take_subset set_dropWhileD subsetI subset_trans)
qed

lemma trim_hd: "trim s \<noteq> [] \<Longrightarrow> \<not> isWhiteSpace (hd (trim s))"
proof -
  assume ne: "trim s \<noteq> []"
  obtain n where n: "trim s = take n (dropWhile isWhiteSpace s)"
    using trim_prefix by blast
  with ne have "dropWhile isWhiteSpace s \<noteq> []" "n \<noteq> 0" by auto
  then have "hd (trim s) = hd (dropWhile isWhiteSpace s)"
    by (simp add: n hd_take)
  then show ?thesis
    using \<open>dropWhile isWhiteSpace s \<noteq> []\<close> hd_dropWhile by metis
qed

lemma trim_last: "trim s \<noteq> [] \<Longrightarrow> \<not> isWhiteSpace (last (trim s))"
proof -
  assume ne: "trim s \<noteq> []"
  let ?r = "dropWhile isWhiteSpace (rev (dropWhile isWhiteSpace s))"
  from ne have "?r \<noteq> []" by (simp add: trim_def)
  then have "\<not> isWhiteSpace (hd ?r)" by (rule hd_dropWhile)
  moreover have "last (trim s) = hd ?r"
    using \<open>?r \<noteq> []\<close> by (simp add: trim_def last_rev)
  ultimately show ?thesis by simp
qed

lemma dropWhile_keeps: "xs \<noteq> [] \<Longrightarrow> \<not> P (hd xs) \<Longrightarrow> dropWhile P xs = xs"
  by (cases xs) simp_all

lemma trim_fixed:
  assumes "t \<noteq> []" "\<not> isWhiteSpace (hd t)" "\<not> isWhiteSpace (last t)"
  shows "trim t = t"
proof -
  have a: "dropWhile isWhiteSpace t = t"
    using assms(1,2) by (rule dropWhile_keeps)
  have "rev t \<noteq> []" "\<not> isWhiteSpace (hd (rev t))"
    using assms by (simp_all add: hd_rev)
  then have b: "dropWhile isWhiteSpace (rev t) = rev t"
    by (rule dropWhile_keeps)
  show ?thesis by (simp add: trim_def a b)
qed

lemma trim_trim: "trim (trim s) = trim s"
proof (cases "trim s = []")
  case True
  have "trim [] = []" by (simp add: trim_def)
  with True show ?thesis by simp
next
  case False
  then show ?thesis by (simp add: trim_fixed trim_hd trim_last)
qed

lemma trim_decompose:
  "\<exists>l r. s = l @ trim s @ r \<and> list_all isWhiteSpace l \<and> list_all isWhiteSpace r"
proof -
  let ?t = "dropWhile isWhiteSpace s"
  have s: "s = takeWhile isWhiteSpace s @ ?t" by simp
  have "rev ?t = takeWhile isWhiteSpace (rev ?t) @ dropWhile isWhiteSpace (rev ?t)" by simp
  then have "?t = rev (dropWhile isWhiteSpace (rev ?t)) @ rev (takeWhile isWhiteSpace (rev ?t))"
    by (metis rev_append rev_rev_ident)
  then have t: "?t = trim s @ rev (takeWhile isWhiteSpace (rev ?t))"
    by (simp add: trim_def)
  have l: "list_all isWhiteSpace (takeWhile isWhiteSpace s)"
    by (simp add: list_all_iff) (meson set_takeWhileD)
  have r: "list_all isWhiteSpace (rev (takeWhile isWhiteSpace (rev ?t)))"
    by (simp add: list_all_iff) (meson set_takeWhileD)
  from s t have "s = takeWhile isWhiteSpace s @ trim s @ rev (takeWhile isWhiteSpace (rev ?t))"
    by metis
  with l r show ?thesis by blast
qed

lemma parsedSkills_entry:
  "e \<in> set (parsedSkills s) \<Longrightarrow> e \<noteq> [] \<and> trim e = e \<and> comma \<notin> set e"
  using set_trim split_no_sep by (fastforce simp: parsedSkills_def trim_trim)

lemma parsedSkills_join:
  assumes "\<forall>e \<in> set xs. e \<noteq> [] \<and> trim e = e \<and> comma \<notin> set e"
  shows "parsedSkills (join xs comma) = xs"
proof (cases "xs = []")
  case True
  then show ?thesis by (simp add: parsedSkills_def split_def trim_def)
next
  case False
  with assms have "split (join xs comma) comma = xs" by (simp add: split_join)
  moreover from assms have "map trim xs = xs" by (simp add: map_idI)
  moreover from assms have "filter (\<lambda>s. s \<noteq> []) xs = xs" by (simp add: filter_id_conv)
  ultimately show ?thesis by (simp add: parsedSkills_def)
qed

lemma parsedSkills_example:
  "parsedSkills (str '' React, , Node.js ,Node.js'') = [str ''React'', str ''Node.js'', str ''Node.js'']"
  by (simp add: parsedSkills_def split_def str_def trim_def isWhiteSpace_def comma_def)


section \<open>Submitting the form\<close>

text \<open>
  C1. When the form is on the screen with draft \<open>d\<close>, submitting stores a record whose
  \<open>skills\<close> are the pieces of the draft's skills text between commas, each trimmed, the
  empty ones dropped, in their order and with repetitions kept. For the text
  \<open>" React, , Node.js ,Node.js"\<close> the record's skills are \<open>React\<close>, \<open>Node.js\<close>, \<open>Node.js\<close>.
\<close>

theorem submit_parses_skills:
  assumes "displayMode s = EDITING" and "formData s = Some d"
  shows "\<exists>s' r. fire s Submit = Some s' \<and> portfolioData s' = Some r
           \<and> skills r = filter (\<lambda>p. p \<noteq> []) (map trim (split (skills d) comma))
           \<and> (skills d = str '' React, , Node.js ,Node.js'' \<longrightarrow>
                skills r = [str ''React'', str ''Node.js'', str ''Node.js''])"
proof -
  let ?r = "submittedData d"
  have "fire s Submit = Some (commit (handleSubmit ?r s))"
    using assms by (simp add: fire_def)
  moreover have "portfolioData (commit (handleSubmit ?r s)) = Some ?r"
    by (simp add: commit_def handleSubmit_def)
  moreover have "skills ?r = filter (\<lambda>p. p \<noteq> []) (map trim (split (skills d) comma))"
    by (simp add: submittedData_def parsedSkills_def)
  moreover have "skills d = str '' React, , Node.js ,Node.js'' \<longrightarrow>
      skills ?r = [str ''React'', str ''Node.js'', str ''Node.js'']"
    by (simp add: submittedData_def parsedSkills_example)
  ultimately show ?thesis by blast
qed

theorem submit_parses_skills_witness:
  "displayMode exampleApp = EDITING
   \<and> formData exampleApp = Some (initialFormData\<lparr>skills := str '' React, , Node.js ,Node.js''\<rparr>)
   \<and> (\<exists>s' r. fire exampleApp Submit = Some s' \<and> portfolioData s' = Some r
         \<and> skills r = [str ''React'', str ''Node.js'', str ''Node.js''])"
proof -
  have m: "displayMode exampleApp = EDITING"
    by (simp add: exampleApp_def displayMode_def)
  have f: "formData exampleApp = Some (initialFormData\<lparr>skills := str '' React, , Node.js ,Node.js''\<rparr>)"
    by (simp add: exampleApp_def)
  from submit_parses_skills [OF m f] m f show ?thesis by auto
qed

text \<open>
  C5. Parsing the skills text, joining the result with commas and parsing again gives the
  same sequence. The proviso that no parsed entry contains a comma holds for every text
  (\<open>parsedSkills_entry\<close>), so the equation needs no hypothesis.
\<close>

theorem skills_round_trip:
  "parsedSkills (join (parsedSkills s) comma) = parsedSkills s"
  by (rule parsedSkills_join) (simp add: parsedSkills_entry)


section \<open>Editing the lists of sub-records\<close>

lemma spread_subRecords: "subRecords xs \<Longrightarrow> spread xs = xs"
  by (induction xs) (auto simp: subRecords_def spread_def split: element.splits)

lemma subRecords_nth: "subRecords xs \<Longrightarrow> j < length xs \<Longrightarrow> \<exists>e. xs ! j = Object e"
proof -
  assume "subRecords xs" "j < length xs"
  then have "case xs ! j of Object _ \<Rightarrow> True | _ \<Rightarrow> False"
    by (simp add: subRecords_def list_all_length)
  then show ?thesis by (cases "xs ! j") simp_all
qed

lemma setList_getList: "setList k (getList k d) d = d"
  by (cases k) simp_all

lemma getList_setList: "getList k' (setList k xs d) = (if k' = k then xs else getList k' d)"
  by (cases k; cases k') simp_all

lemma setList_scalars:
  "name (setList k xs d) = name d" "title (setList k xs d) = title d"
  "email (setList k xs d) = email d" "phone (setList k xs d) = phone d"
  "location (setList k xs d) = location d" "bio (setList k xs d) = bio d"
  "profilePicture (setList k xs d) = profilePicture d"
  "linkedin (setList k xs d) = linkedin d" "github (setList k xs d) = github d"
  "website (setList k xs d) = website d" "twitter (setList k xs d) = twitter d"
  "skills (setList k xs d) = skills d"
  by (cases k; simp)+

lemma filter_zip_remove:
  "subRecords xs \<Longrightarrow>
   map fst (filter (\<lambda>(e, i). e \<noteq> Empty \<and> int i \<noteq> index) (zip xs [k..<k + length xs])) =
     (if int k \<le> index \<and> index < int (k + length xs)
      then take (nat index - k) xs @ drop (Suc (nat index - k)) xs else xs)"
proof (induction xs arbitrary: k)
  case Nil
  then show ?case by simp
next
  case (Cons x xs)
  let ?keep = "\<lambda>(e, i). e \<noteq> Empty \<and> int i \<noteq> index"
  let ?inner = "int (Suc k) \<le> index \<and> index < int (Suc k + length xs)"
  let ?outer = "int k \<le> index \<and> index < int (k + length (x # xs))"
  have sub: "subRecords xs" and x: "x \<noteq> Empty"
    using Cons.prems by (auto simp: subRecords_def)
  have "[k..<k + length (x # xs)] = k # [Suc k..<Suc k + length xs]"
    using upt_conv_Cons [of k "k + Suc (length xs)"] by simp
  then have upt: "zip (x # xs) [k..<k + length (x # xs)] = (x, k) # zip xs [Suc k..<Suc k + length xs]"
    by (simp only: zip_Cons_Cons)
  note IH = Cons.IH [OF sub, of "Suc k"]
  show ?case
  proof (cases "int k = index")
    case True
    then have inner: "\<not> ?inner" and outer: "?outer" by simp_all
    have rest: "map fst (filter ?keep (zip xs [Suc k..<Suc k + length xs])) = xs"
      using IH unfolding if_not_P [OF inner] .
    have "nat index - k = 0" using True by simp
    then show ?thesis
      unfolding upt if_P [OF outer] using rest True by simp
  next
    case False
    show ?thesis
    proof (cases ?inner)
      case True
      then have outer: "?outer" by simp
      have rest: "map fst (filter ?keep (zip xs [Suc k..<Suc k + length xs])) =
          take (nat index - Suc k) xs @ drop (Suc (nat index - Suc k)) xs"
        using IH unfolding if_P [OF True] .
      have "nat index - k = Suc (nat index - Suc k)" using True by linarith
      then show ?thesis
        unfolding upt if_P [OF outer] using rest x False by simp
    next
      case inner: False
      with False have outer: "\<not> ?outer" by auto
      have rest: "map fst (filter ?keep (zip xs [Suc k..<Suc k + length xs])) = xs"
        using IH unfolding if_not_P [OF inner] .
      show ?thesis
        unfolding upt if_not_P [OF outer] using rest x False by simp
    qed
  qed
qed

lemma filterIndex_remove:
  assumes "subRecords xs"
  shows "filterIndex (\<lambda>i. i \<noteq> index) xs =
     (if 0 \<le> index \<and> index < int (length xs)
      then take (nat index) xs @ drop (Suc (nat index)) xs else xs)"
  using filter_zip_remove [OF assms, of index 0] by (simp add: filterIndex_def)

lemma setList_setList: "setList k xs (setList k ys d) = setList k xs d"
  by (cases k) simp_all

lemma readIndex_subRecords:
  "subRecords xs \<Longrightarrow> 0 \<le> p \<Longrightarrow> p < int (length xs) \<Longrightarrow> readIndex xs p = xs ! nat p"
proof -
  assume a: "subRecords xs" "0 \<le> p" "p < int (length xs)"
  then have "nat p < length xs" by linarith
  then obtain e where "xs ! nat p = Object e"
    using subRecords_nth [OF a(1)] by blast
  then show ?thesis using a by (simp add: readIndex_def)
qed

text \<open>
  C7. On a list of sub-records and a position inside it, \<open>handleArrayChange\<close> keeps the
  length, leaves every other position as it was, sets sub-field \<open>f\<close> of the sub-record at the
  position to \<open>v\<close> and keeps its other sub-fields, and changes neither the other two lists
  nor any scalar field nor the skills text.
\<close>

theorem handleArrayChange_frame:
  assumes "subRecords (getList k d)" and "0 \<le> p" and "p < int (length (getList k d))"
  shows "length (getList k (handleArrayChange p k f v d)) = length (getList k d)
       \<and> (\<forall>j. j < length (getList k d) \<and> j \<noteq> nat p \<longrightarrow>
             getList k (handleArrayChange p k f v d) ! j = getList k d ! j)
       \<and> (\<exists>e e'. getList k d ! nat p = Object e
             \<and> getList k (handleArrayChange p k f v d) ! nat p = Object e'
             \<and> e' f = Some v \<and> (\<forall>g. g \<noteq> f \<longrightarrow> e' g = e g))
       \<and> (\<forall>k'. k' \<noteq> k \<longrightarrow> getList k' (handleArrayChange p k f v d) = getList k' d)
       \<and> name (handleArrayChange p k f v d) = name d
       \<and> title (handleArrayChange p k f v d) = title d
       \<and> email (handleArrayChange p k f v d) = email d
       \<and> phone (handleArrayChange p k f v d) = phone d
       \<and> location (handleArrayChange p k f v d) = location d
       \<and> bio (handleArrayChange p k f v d) = bio d
       \<and> profilePicture (handleArrayChange p k f v d) = profilePicture d
       \<and> linkedin (handleArrayChange p k f v d) = linkedin d
       \<and> github (handleArrayChange p k f v d) = github d
       \<and> website (handleArrayChange p k f v d) = website d
       \<and> twitter (handleArrayChange p k f v d) = twitter d
       \<and> skills (handleArrayChange p k f v d) = skills d"
proof -
  let ?xs = "getList k d"
  have p: "nat p < length ?xs" using assms(2,3) by linarith
  obtain e where e: "?xs ! nat p = Object e"
    using subRecords_nth [OF assms(1) p] by blast
  have new: "handleArrayChange p k f v d = setList k (?xs[nat p := Object (e(f \<mapsto> v))]) d"
    using assms(2,3) e
    by (simp add: handleArrayChange_def Let_def spread_subRecords [OF assms(1)]
        readIndex_subRecords [OF assms] assignIndex_def spreadObject_def)
  have "getList k (handleArrayChange p k f v d) ! nat p = Object (e(f \<mapsto> v))"
    unfolding new using p by (simp add: getList_setList)
  with e have entry: "\<exists>e e'. getList k d ! nat p = Object e
      \<and> getList k (handleArrayChange p k f v d) ! nat p = Object e'
      \<and> e' f = Some v \<and> (\<forall>g. g \<noteq> f \<longrightarrow> e' g = e g)"
    by (intro exI [of _ e] exI [of _ "e(f \<mapsto> v)"]) simp
  have rest: "length (getList k (handleArrayChange p k f v d)) = length (getList k d)
       \<and> (\<forall>j. j < length (getList k d) \<and> j \<noteq> nat p \<longrightarrow>
             getList k (handleArrayChange p k f v d) ! j = getList k d ! j)
       \<and> (\<forall>k'. k' \<noteq> k \<longrightarrow> getList k' (handleArrayChange p k f v d) = getList k' d)"
    unfolding new by (simp add: getList_setList)
  have scalars: "name (handleArrayChange p k f v d) = name d
       \<and> title (handleArrayChange p k f v d) = title d
       \<and> email (handleArrayChange p k f v d) = email d
       \<and> phone (handleArrayChange p k f v d) = phone d
       \<and> location (handleArrayChange p k f v d) = location d
       \<and> bio (handleArrayChange p k f v d) = bio d
       \<and> profilePicture (handleArrayChange p k f v d) = profilePicture d
       \<and> linkedin (handleArrayChange p k f v d) = linkedin d
       \<and> github (handleArrayChange p k f v d) = github d
       \<and> website (handleArrayChange p k f v d) = website d
       \<and> twitter (handleArrayChange p k f v d) = twitter d
       \<and> skills (handleArrayChange p k f v d) = skills d"
    unfolding new by (simp add: setList_scalars)
  from rest entry scalars show ?thesis by (intro conjI) (elim conjE, assumption)+
qed

theorem handleArrayChange_frame_witness:
  "subRecords (getList Experience oneJob) \<and> (0::int) \<le> 1 \<and> 1 < int (length (getList Experience oneJob))
   \<and> getList Experience (handleArrayChange 1 Experience Company (str ''Acme'') oneJob) ! 0
       = Object [Title \<mapsto> str ''Dev'']
   \<and> getList Experience (handleArrayChange 1 Experience Company (str ''Acme'') oneJob) ! 1
       = Object [Company \<mapsto> str ''Acme'']
   \<and> skills (handleArrayChange 1 Experience Company (str ''Acme'') oneJob) = skills oneJob"
proof -
  let ?d = "handleArrayChange 1 Experience Company (str ''Acme'') oneJob"
  have a: "subRecords (getList Experience oneJob)"
    by (simp add: oneJob_def subRecords_def)
  have b: "(0::int) \<le> 1" by simp
  have c: "1 < int (length (getList Experience oneJob))"
    by (simp add: oneJob_def)
  note frame = handleArrayChange_frame [OF a b c, of Company "str ''Acme''"]
  have e: "getList Experience oneJob ! 0 = Object [Title \<mapsto> str ''Dev'']"
       "getList Experience oneJob ! nat 1 = Object Map.empty"
    by (simp_all add: oneJob_def)
  from frame have "\<forall>j. j < length (getList Experience oneJob) \<and> j \<noteq> nat 1 \<longrightarrow>
      getList Experience ?d ! j = getList Experience oneJob ! j"
    by blast
  then have "0 < length (getList Experience oneJob) \<and> 0 \<noteq> nat 1 \<longrightarrow>
      getList Experience ?d ! 0 = getList Experience oneJob ! 0"
    by (rule spec)
  moreover have "0 < length (getList Experience oneJob) \<and> 0 \<noteq> nat 1"
    by (simp add: oneJob_def)
  ultimately have "getList Experience ?d ! 0 = getList Experience oneJob ! 0"
    by (rule mp)
  then have first: "getList Experience ?d ! 0 = Object [Title \<mapsto> str ''Dev'']"
    using e(1) by simp
  from frame obtain x x' where x: "getList Experience oneJob ! nat 1 = Object x"
    and x': "getList Experience ?d ! nat 1 = Object x'"
    and set: "x' Company = Some (str ''Acme'')"
    and kept: "\<forall>g. g \<noteq> Company \<longrightarrow> x' g = x g"
    by blast
  from x e(2) have "x = Map.empty" by simp
  with set kept have "x' = [Company \<mapsto> str ''Acme'']"
    by (intro ext) simp
  with x' have second: "getList Experience ?d ! 1 = Object [Company \<mapsto> str ''Acme'']"
    by simp
  from frame have "skills ?d = skills oneJob" by blast
  with a b c first second show ?thesis by blast
qed

text \<open>
  C2 (as the code has it). On a list of sub-records, \<open>handleArrayChange\<close> at a negative
  position changes nothing, and at a position from the length on it is not a fault but
  grows the list: the entries stay, the slots up to the position are holes, and the slot at
  the position is a new sub-record that has sub-field \<open>f\<close> only; the other lists, the
  scalar fields and the skills text stay. (A position beyond the largest array index,
  \<open>2^32 - 2\<close>, is a property key like a negative one.)
\<close>

theorem handleArrayChange_out_of_range:
  assumes "subRecords (getList k d)"
  shows "(p < 0 \<or> (int (length (getList k d)) \<le> p \<and> 4294967294 < p) \<longrightarrow>
            handleArrayChange p k f v d = d)
       \<and> (int (length (getList k d)) \<le> p \<and> p \<le> 4294967294 \<longrightarrow>
            getList k (handleArrayChange p k f v d) =
              getList k d @ replicate (nat p - length (getList k d)) Empty @ [Object [f \<mapsto> v]]
          \<and> (\<forall>k'. k' \<noteq> k \<longrightarrow> getList k' (handleArrayChange p k f v d) = getList k' d)
          \<and> name (handleArrayChange p k f v d) = name d
          \<and> title (handleArrayChange p k f v d) = title d
          \<and> email (handleArrayChange p k f v d) = email d
          \<and> phone (handleArrayChange p k f v d) = phone d
          \<and> location (handleArrayChange p k f v d) = location d
          \<and> bio (handleArrayChange p k f v d) = bio d
          \<and> profilePicture (handleArrayChange p k f v d) = profilePicture d
          \<and> linkedin (handleArrayChange p k f v d) = linkedin d
          \<and> github (handleArrayChange p k f v d) = github d
          \<and> website (handleArrayChange p k f v d) = website d
          \<and> twitter (handleArrayChange p k f v d) = twitter d
          \<and> skills (handleArrayChange p k f v d) = skills d)"
proof -
  let ?xs = "getList k d"
  have unchanged: "handleArrayChange p k f v d = d"
    if "p < 0 \<or> (int (length ?xs) \<le> p \<and> 4294967294 < p)"
  proof -
    have "assignIndex ?xs p (Object ((spreadObject (readIndex ?xs p))(f \<mapsto> v))) = ?xs"
      using that by (auto simp: assignIndex_def isArrayIndex_def)
    then show ?thesis
      by (simp add: handleArrayChange_def Let_def spread_subRecords [OF assms] setList_getList)
  qed
  have grown: "handleArrayChange p k f v d =
      setList k (?xs @ replicate (nat p - length ?xs) Empty @ [Object [f \<mapsto> v]]) d"
    if "int (length ?xs) \<le> p \<and> p \<le> 4294967294"
    using that
    by (simp add: handleArrayChange_def Let_def spread_subRecords [OF assms]
        assignIndex_def isArrayIndex_def readIndex_def spreadObject_def)
  show ?thesis
  proof (intro conjI impI)
    assume "p < 0 \<or> (int (length ?xs) \<le> p \<and> 4294967294 < p)"
    then show "handleArrayChange p k f v d = d" by (rule unchanged)
  qed (simp_all add: grown getList_setList setList_scalars)
qed

theorem handleArrayChange_out_of_range_witness:
  "subRecords (getList Experience initialFormData)
   \<and> int (length (getList Experience initialFormData)) \<le> 2 \<and> (2::int) \<le> 4294967294
   \<and> getList Experience (handleArrayChange 2 Experience Title (str ''Dev'') initialFormData)
       = [Empty, Empty, Object [Title \<mapsto> str ''Dev'']]
   \<and> (- 1 < (0::int) \<and> handleArrayChange (- 1) Experience Title (str ''Dev'') initialFormData
         = initialFormData)"
proof -
  have a: "subRecords (getList Experience initialFormData)"
    by (simp add: initialFormData_def subRecords_def)
  have h: "int (length (getList Experience initialFormData)) \<le> 2 \<and> (2::int) \<le> 4294967294"
    by (simp add: initialFormData_def)
  from handleArrayChange_out_of_range [OF a, of 2 Title "str ''Dev''"] h
  have "getList Experience (handleArrayChange 2 Experience Title (str ''Dev'') initialFormData)
       = getList Experience initialFormData
         @ replicate (nat 2 - length (getList Experience initialFormData)) Empty
         @ [Object [Title \<mapsto> str ''Dev'']]"
    by blast
  then have grown:
    "getList Experience (handleArrayChange 2 Experience Title (str ''Dev'') initialFormData)
       = [Empty, Empty, Object [Title \<mapsto> str ''Dev'']]"
    by (simp add: initialFormData_def numeral_2_eq_2)
  have n: "- 1 < (0::int)" by simp
  from handleArrayChange_out_of_range [OF a, of "- 1" Title "str ''Dev''"] n
  have "handleArrayChange (- 1) Experience Title (str ''Dev'') initialFormData = initialFormData"
    by blast
  with a h grown n show ?thesis by blast
qed

text \<open>
  The update at position 0 of the empty experience list of the initial draft is out of
  range, and it changes the draft: the list has one entry afterwards.
\<close>

theorem handleArrayChange_extends_counterexample:
  "int (length (getList Experience initialFormData)) \<le> 0
   \<and> handleArrayChange 0 Experience Title (str ''Dev'') initialFormData \<noteq> initialFormData
   \<and> length (getList Experience (handleArrayChange 0 Experience Title (str ''Dev'') initialFormData)) = 1"
  by (simp add: handleArrayChange_def Let_def initialFormData_def spread_def assignIndex_def
      isArrayIndex_def readIndex_def spreadObject_def)

text \<open>
  C4. On a list of sub-records of length \<open>n\<close>, \<open>removeEntry\<close> at a position \<open>i\<close> with
  \<open>0 \<le> i < n\<close> gives a list of length \<open>n - 1\<close> whose element \<open>j\<close> is the old element \<open>j\<close> for
  \<open>j < i\<close> and the old element \<open>j + 1\<close> for \<open>j \<ge> i\<close>; at any other position, and so on an
  empty list, it leaves the draft as it was.
\<close>

theorem removeEntry_shifts_down:
  assumes "subRecords (getList k d)"
  shows "(0 \<le> i \<and> i < int (length (getList k d)) \<longrightarrow>
            length (getList k (removeEntry k i d)) = length (getList k d) - 1
          \<and> (\<forall>j. j < nat i \<longrightarrow> getList k (removeEntry k i d) ! j = getList k d ! j)
          \<and> (\<forall>j. nat i \<le> j \<and> j < length (getList k d) - 1 \<longrightarrow>
                 getList k (removeEntry k i d) ! j = getList k d ! (j + 1)))
       \<and> (\<not> (0 \<le> i \<and> i < int (length (getList k d))) \<longrightarrow> removeEntry k i d = d)"
proof (cases "0 \<le> i \<and> i < int (length (getList k d))")
  case True
  let ?xs = "getList k d"
  have new: "getList k (removeEntry k i d) = take (nat i) ?xs @ drop (Suc (nat i)) ?xs"
    using True by (simp add: removeEntry_def getList_setList filterIndex_remove [OF assms])
  have i: "nat i < length ?xs" using True by linarith
  have "length (getList k (removeEntry k i d)) = length ?xs - 1"
    using i by (simp add: new)
  moreover have "\<forall>j. j < nat i \<longrightarrow> getList k (removeEntry k i d) ! j = ?xs ! j"
    using i by (simp add: new nth_append)
  moreover have "\<forall>j. nat i \<le> j \<and> j < length ?xs - 1 \<longrightarrow>
      getList k (removeEntry k i d) ! j = ?xs ! (j + 1)"
    using i by (auto simp: new nth_append min_def)
  ultimately show ?thesis using True by blast
next
  case False
  then have "filterIndex (\<lambda>j. j \<noteq> i) (getList k d) = getList k d"
    using filterIndex_remove [OF assms, of i] by auto
  then have "removeEntry k i d = d"
    by (simp add: removeEntry_def setList_getList)
  with False show ?thesis by blast
qed

theorem removeEntry_shifts_down_witness:
  "subRecords (getList Experience oneJob)
   \<and> (0::int) \<le> 0 \<and> 0 < int (length (getList Experience oneJob))
   \<and> length (getList Experience (removeEntry Experience 0 oneJob)) = 1
   \<and> getList Experience (removeEntry Experience 0 oneJob) ! 0 = Object Map.empty
   \<and> \<not> (0 \<le> (5::int) \<and> 5 < int (length (getList Experience oneJob)))
   \<and> removeEntry Experience 5 oneJob = oneJob"
proof -
  let ?d = "removeEntry Experience 0 oneJob"
  have a: "subRecords (getList Experience oneJob)"
    by (simp add: oneJob_def subRecords_def)
  have r: "(0::int) \<le> 0 \<and> 0 < int (length (getList Experience oneJob))"
    by (simp add: oneJob_def)
  have o: "\<not> (0 \<le> (5::int) \<and> 5 < int (length (getList Experience oneJob)))"
    by (simp add: oneJob_def)
  from removeEntry_shifts_down [OF a, of 0] r
  have len: "length (getList Experience ?d) = length (getList Experience oneJob) - 1"
    and shift: "\<forall>j. nat 0 \<le> j \<and> j < length (getList Experience oneJob) - 1 \<longrightarrow>
        getList Experience ?d ! j = getList Experience oneJob ! (j + 1)"
    by blast+
  from len have one: "length (getList Experience ?d) = 1"
    by (simp add: oneJob_def)
  from shift have "nat 0 \<le> 0 \<and> 0 < length (getList Experience oneJob) - 1 \<longrightarrow>
      getList Experience ?d ! 0 = getList Experience oneJob ! (0 + 1)"
    by (rule spec)
  moreover have "nat 0 \<le> 0 \<and> 0 < length (getList Experience oneJob) - 1"
    by (simp add: oneJob_def)
  ultimately have "getList Experience ?d ! 0 = getList Experience oneJob ! (0 + 1)"
    by (rule mp)
  then have moved: "getList Experience ?d ! 0 = Object Map.empty"
    by (simp add: oneJob_def)
  from removeEntry_shifts_down [OF a, of 5] o
  have "removeEntry Experience 5 oneJob = oneJob" by blast
  with a r one moved o show ?thesis by blast
qed

text \<open>
  C6. On a list of sub-records, \<open>addEntry\<close> followed by \<open>removeEntry\<close> at the position of
  the appended entry gives back the draft as it was before the append.
\<close>

theorem addEntry_then_removeEntry:
  assumes "subRecords (getList k d)"
  shows "removeEntry k (int (length (getList k d))) (addEntry k d) = d"
proof -
  let ?xs = "getList k d"
  have sub: "subRecords (?xs @ [Object Map.empty])"
    using assms by (simp add: subRecords_def)
  have "filterIndex (\<lambda>i. i \<noteq> int (length ?xs)) (?xs @ [Object Map.empty]) = ?xs"
    by (simp add: filterIndex_remove [OF sub])
  then show ?thesis
    by (simp add: removeEntry_def addEntry_def getList_setList setList_setList
        spread_subRecords [OF assms] setList_getList)
qed

theorem addEntry_then_removeEntry_witness:
  "subRecords (getList Experience oneJob)
   \<and> length (getList Experience (addEntry Experience oneJob)) = 3
   \<and> removeEntry Experience (int (length (getList Experience oneJob)))
        (addEntry Experience oneJob) = oneJob"
proof -
  have a: "subRecords (getList Experience oneJob)"
    by (simp add: oneJob_def subRecords_def)
  have "length (getList Experience (addEntry Experience oneJob)) = 3"
    by (simp add: addEntry_def oneJob_def spread_def)
  with a addEntry_then_removeEntry [OF a] show ?thesis by blast
qed

text \<open>
  The lists of every state the user can reach are sequences of sub-records: the form
  starts with empty lists, \<open>addEntry\<close> appends an object, and the inputs and remove buttons
  exist for the entries on the screen only.
\<close>

lemma subRecords_all: 
  "subRecords (experience d) \<and> subRecords (education d) \<and> subRecords (projects d)
     \<longleftrightarrow> (\<forall>k. subRecords (getList k d))"
proof
  assume a: "subRecords (experience d) \<and> subRecords (education d) \<and> subRecords (projects d)"
  show "\<forall>k. subRecords (getList k d)"
  proof
    fix k show "subRecords (getList k d)" using a by (cases k) simp_all
  qed
next
  assume a: "\<forall>k. subRecords (getList k d)"
  from a [rule_format, of Experience] a [rule_format, of Education] a [rule_format, of Projects]
  show "subRecords (experience d) \<and> subRecords (education d) \<and> subRecords (projects d)"
    by simp
qed

lemma getList_handleChange: "getList k (handleChange f v d) = getList k d"
  by (cases f; cases k) simp_all

lemma subRecords_update:
  "subRecords xs \<Longrightarrow> subRecords (xs[i := Object e])"
  by (auto simp: subRecords_def list_all_iff dest!: set_update_subset_insert [THEN subsetD])

lemma subRecords_filterIndex: "subRecords xs \<Longrightarrow> subRecords (filterIndex p xs)"
  by (auto simp: subRecords_def filterIndex_def list_all_iff dest: set_zip_leftD)

lemma subRecords_setList:
  "\<forall>k. subRecords (getList k d) \<Longrightarrow> subRecords xs \<Longrightarrow> subRecords (getList k' (setList k xs d))"
  by (simp add: getList_setList)

lemma subRecords_handleArrayChange:
  assumes "\<forall>k. subRecords (getList k d)" and "entryShown (getList k d) i"
  shows "subRecords (getList k' (handleArrayChange i k f v d))"
proof -
  have sub: "subRecords (getList k d)" using assms(1) by blast
  have "0 \<le> i" "i < int (length (getList k d))"
    using assms(2) by (simp_all add: entryShown_def)
  then have "assignIndex (getList k d) i x = (getList k d)[nat i := x]" for x
    by (simp add: assignIndex_def)
  then show ?thesis
    using assms(1)
    by (simp add: handleArrayChange_def Let_def spread_subRecords [OF sub] getList_setList
        subRecords_update [OF sub])
qed

lemma subRecords_addEntry:
  assumes "\<forall>k. subRecords (getList k d)"
  shows "subRecords (getList k' (addEntry k d))"
proof -
  have sub: "subRecords (getList k d)" using assms by blast
  then have "subRecords (getList k d @ [Object Map.empty])" by (simp add: subRecords_def)
  then show ?thesis
    using assms by (simp add: addEntry_def spread_subRecords [OF sub] getList_setList)
qed

lemma subRecords_removeEntry:
  assumes "\<forall>k. subRecords (getList k d)"
  shows "subRecords (getList k' (removeEntry k i d))"
  using assms by (simp add: removeEntry_def getList_setList subRecords_filterIndex)

lemma formLists_iff:
  "formLists s \<longleftrightarrow> (\<forall>d. formData s = Some d \<longrightarrow> (\<forall>k. subRecords (getList k d)))"
  by (simp add: formLists_def subRecords_all split: option.splits)

lemma formLists_onForm:
  assumes "formLists s" and "onForm f s = Some t"
    and "\<And>d. \<forall>k. subRecords (getList k d) \<Longrightarrow> \<forall>k. subRecords (getList k (f d))"
  shows "formLists t"
proof -
  from assms(2) obtain d where d: "formData s = Some d" and t: "t = s\<lparr>formData := Some (f d)\<rparr>"
    by (auto simp: onForm_def split: if_splits)
  from assms(1) d have "\<forall>k. subRecords (getList k d)" by (simp add: formLists_iff)
  then have "\<forall>k. subRecords (getList k (f d))" by (rule assms(3))
  then show ?thesis by (simp add: formLists_iff t)
qed

lemma formLists_handler:
  assumes "formLists s" and "handler e s = Some t"
  shows "formLists t"
proof (cases e)
  case (Change f v)
  with assms show ?thesis
    by (auto intro: formLists_onForm simp: getList_handleChange)
next
  case (ArrayChange i k f v)
  with assms(2) obtain d where d: "formData s = Some d" and shown: "entryShown (getList k d) i"
    and t: "onForm (handleArrayChange i k f v) s = Some t"
    by (auto split: option.splits if_splits)
  from assms(1) d have all: "\<forall>k. subRecords (getList k d)" by (simp add: formLists_iff)
  from t d have "formData t = Some (handleArrayChange i k f v d)"
    by (auto simp: onForm_def split: if_splits)
  then show ?thesis
    using subRecords_handleArrayChange [OF all shown] by (simp add: formLists_iff)
next
  case (AddEntry k)
  with assms show ?thesis
    by (auto intro: formLists_onForm simp: subRecords_addEntry)
next
  case (RemoveEntry k i)
  with assms(2) have "onForm (removeEntry k i) s = Some t"
    by (auto split: option.splits if_splits)
  with assms(1) show ?thesis
    by (rule formLists_onForm) (simp add: subRecords_removeEntry)
next
  case (SelectTemplate x)
  with assms show ?thesis
    by (auto simp: formLists_def setSelectedTemplate_def split: if_splits)
next
  case Submit
  with assms show ?thesis
    by (auto simp: formLists_def handleSubmit_def split: if_splits)
next
  case CardClick
  with assms show ?thesis
    by (auto simp: formLists_def handleCardClick_def split: if_splits)
next
  case Reset
  with assms show ?thesis
    by (auto simp: formLists_def onReset_def split: if_splits)
next
  case BackToForm
  with assms show ?thesis
    by (auto simp: formLists_def handleBackToForm_def split: if_splits)
qed

lemma formLists_commit: "formLists t \<Longrightarrow> formLists (commit t)"
  by (auto simp: formLists_def commit_def initialFormData_def subRecords_def split: option.splits)

lemma reachable_formLists: "reachable s \<Longrightarrow> formLists s"
proof (induction rule: reachable.induct)
  case start
  show ?case
    unfolding initialApp_def by (rule formLists_commit) (simp add: formLists_def)
next
  case (step s e s')
  from step.hyps(2) obtain t where "handler e s = Some t" "s' = commit t"
    by (auto simp: fire_def)
  with step.IH show ?case
    by (auto intro: formLists_commit formLists_handler)
qed


section \<open>The display mode\<close>

lemma displayMode_commit: "displayMode (commit s) = displayMode s"
  by (simp add: commit_def displayMode_def split: option.splits)

lemma onForm_mode:
  "onForm f s = Some t \<Longrightarrow> displayMode s = EDITING \<and> displayMode t = EDITING"
  by (auto simp: onForm_def displayMode_def split: if_splits)

lemma handler_modes:
  assumes "handler e s = Some t"
  shows "(displayMode s = EDITING \<longrightarrow>
            (e = Submit \<and> displayMode t = SUMMARY)
          \<or> (e \<notin> {Submit, CardClick, Reset, BackToForm} \<and> displayMode t = EDITING))
       \<and> (displayMode s = SUMMARY \<longrightarrow>
            (e = CardClick \<and> displayMode t = FULL) \<or> (e = Reset \<and> displayMode t = EDITING))
       \<and> (displayMode s = FULL \<longrightarrow> e = BackToForm \<and> displayMode t = EDITING)"
proof (cases e)
  case (Change f v)
  with assms onForm_mode show ?thesis by fastforce
next
  case (ArrayChange i k f v)
  with assms onForm_mode show ?thesis
    by (fastforce split: option.splits if_splits)
next
  case (AddEntry k)
  with assms onForm_mode show ?thesis by fastforce
next
  case (RemoveEntry k i)
  with assms onForm_mode show ?thesis
    by (fastforce split: option.splits if_splits)
next
  case (SelectTemplate t')
  with assms show ?thesis
    by (auto simp: setSelectedTemplate_def displayMode_def split: if_splits)
next
  case Submit
  with assms show ?thesis
    by (auto simp: handleSubmit_def displayMode_def split: if_splits)
next
  case CardClick
  with assms show ?thesis
    by (auto simp: handleCardClick_def displayMode_def split: if_splits)
next
  case Reset
  with assms show ?thesis
    by (auto simp: onReset_def displayMode_def split: if_splits)
next
  case BackToForm
  with assms show ?thesis
    by (auto simp: handleBackToForm_def displayMode_def split: if_splits)
qed

lemma displayMode_initialApp: "displayMode initialApp = EDITING"
  by (simp add: initialApp_def displayMode_commit) (simp add: displayMode_def)

lemma commit_form: "portfolioData (commit t) \<noteq> None \<Longrightarrow> formData (commit t) = None"
  by (auto simp: commit_def split: option.splits)

lemma reachable_form: "reachable s \<Longrightarrow> portfolioData s \<noteq> None \<Longrightarrow> formData s = None"
proof (induction rule: reachable.induct)
  case start
  then show ?case unfolding initialApp_def by (rule commit_form)
next
  case (step s e s')
  from step.hyps(2) obtain t where "s' = commit t" by (auto simp: fire_def)
  with step.prems show ?case by (simp add: commit_form)
qed

lemma run_reachable: "reachable s \<Longrightarrow> run s es = Some s' \<Longrightarrow> reachable s'"
proof (induction es arbitrary: s)
  case Nil
  then show ?case by simp
next
  case (Cons e es)
  then show ?case
    by (auto split: option.splits intro: reachable.step)
qed

lemma fire_Submit:
  "displayMode s = EDITING \<Longrightarrow> formData s = Some d \<Longrightarrow>
   fire s Submit = Some (commit (handleSubmit (submittedData d) s))"
  by (simp add: fire_def)

lemma fire_CardClick:
  "displayMode s = SUMMARY \<Longrightarrow> fire s CardClick = Some (commit (handleCardClick s))"
  by (simp add: fire_def)

lemma fire_BackToForm:
  "displayMode s = FULL \<Longrightarrow> fire s BackToForm = Some (commit (handleBackToForm s))"
  by (simp add: fire_def)

lemma formData_initialApp: "formData initialApp = Some initialFormData"
  by (simp add: initialApp_def commit_def)

lemma session_result:
  "\<exists>s r. run initialApp session = Some s \<and> displayMode s = FULL
      \<and> portfolioData s = Some r \<and> name r = str ''Ada''
      \<and> experience r = [Object [Title \<mapsto> str ''Dev'']]"
  by (simp add: session_def initialApp_def commit_def fire_def onForm_def displayMode_def
      initialFormData_def addEntry_def handleArrayChange_def spread_def assignIndex_def
      readIndex_def spreadObject_def entryShown_def handleSubmit_def submittedData_def
      setSelectedTemplate_def handleCardClick_def Let_def)

text \<open>
  C8. The application starts in \<open>EDITING\<close>. Whatever the state, an action of the user that
  has a control on the screen moves the display mode as follows: from \<open>EDITING\<close>, submitting
  leads to \<open>SUMMARY\<close> and every other action (all of them the form's) stays in \<open>EDITING\<close>; from
  \<open>SUMMARY\<close>, the click on the card leads to \<open>FULL\<close> and the card's Reset to \<open>EDITING\<close>; from
  \<open>FULL\<close> the only action is the Back button, which leads to \<open>EDITING\<close>. So nothing leads
  from \<open>FULL\<close> to \<open>SUMMARY\<close>.
\<close>

theorem displayMode_transitions:
  "displayMode initialApp = EDITING
   \<and> (fire s e = Some s' \<longrightarrow>
        (displayMode s = EDITING \<longrightarrow>
            (e = Submit \<and> displayMode s' = SUMMARY)
          \<or> (e \<notin> {Submit, CardClick, Reset, BackToForm} \<and> displayMode s' = EDITING))
      \<and> (displayMode s = SUMMARY \<longrightarrow>
            (e = CardClick \<and> displayMode s' = FULL) \<or> (e = Reset \<and> displayMode s' = EDITING))
      \<and> (displayMode s = FULL \<longrightarrow> e = BackToForm \<and> displayMode s' = EDITING))"
proof -
  have "(displayMode s = EDITING \<longrightarrow>
            (e = Submit \<and> displayMode s' = SUMMARY)
          \<or> (e \<notin> {Submit, CardClick, Reset, BackToForm} \<and> displayMode s' = EDITING))
      \<and> (displayMode s = SUMMARY \<longrightarrow>
            (e = CardClick \<and> displayMode s' = FULL) \<or> (e = Reset \<and> displayMode s' = EDITING))
      \<and> (displayMode s = FULL \<longrightarrow> e = BackToForm \<and> displayMode s' = EDITING)"
    if "fire s e = Some s'"
  proof -
    from that obtain t where t: "handler e s = Some t" and s': "s' = commit t"
      by (auto simp: fire_def)
    from handler_modes [OF t] show ?thesis
      unfolding s' displayMode_commit .
  qed
  with displayMode_initialApp show ?thesis by blast
qed

theorem displayMode_transitions_witness:
  "\<exists>s1 s2 s3. fire initialApp Submit = Some s1 \<and> displayMode s1 = SUMMARY
     \<and> fire s1 CardClick = Some s2 \<and> displayMode s2 = FULL
     \<and> fire s2 BackToForm = Some s3 \<and> displayMode s3 = EDITING"
proof -
  let ?s1 = "commit (handleSubmit (submittedData initialFormData) initialApp)"
  let ?s2 = "commit (handleCardClick ?s1)"
  let ?s3 = "commit (handleBackToForm ?s2)"
  have m0: "displayMode initialApp = EDITING"
    using displayMode_transitions [of initialApp Submit ?s1] by blast
  have f1: "fire initialApp Submit = Some ?s1"
    using m0 formData_initialApp by (rule fire_Submit)
  have m1: "displayMode ?s1 = SUMMARY"
    using displayMode_transitions [of initialApp Submit ?s1] f1 m0 by blast
  have f2: "fire ?s1 CardClick = Some ?s2"
    using m1 by (rule fire_CardClick)
  have m2: "displayMode ?s2 = FULL"
    using displayMode_transitions [of ?s1 CardClick ?s2] f2 m1 by auto
  have f3: "fire ?s2 BackToForm = Some ?s3"
    using m2 by (rule fire_BackToForm)
  have m3: "displayMode ?s3 = EDITING"
    using displayMode_transitions [of ?s2 BackToForm ?s3] f3 m2 by blast
  from f1 m1 f2 m2 f3 m3 show ?thesis by blast
qed

text \<open>
  C9. In every reachable state that shows the full page, the Back button is enabled, and
  after it the record is absent, the form is shown, and its draft is the initial one: every
  scalar field and the skills text are empty strings and the three lists are empty.
\<close>

theorem reset_from_full:
  assumes "reachable s" and "displayMode s = FULL"
  shows "\<exists>s'. fire s BackToForm = Some s' \<and> portfolioData s' = None
           \<and> displayMode s' = EDITING
           \<and> formData s' =
               Some \<lparr>name = [], title = [], email = [], phone = [], location = [], bio = [],
                     profilePicture = [], linkedin = [], github = [], website = [],
                     twitter = [], skills = [], experience = [], education = [],
                     projects = []\<rparr>"
proof -
  from assms(2) have "portfolioData s \<noteq> None"
    by (auto simp: displayMode_def split: if_splits)
  with assms(1) have form: "formData s = None" by (rule reachable_form)
  let ?s' = "commit (handleBackToForm s)"
  have "fire s BackToForm = Some ?s'" using assms(2) by (simp add: fire_def)
  moreover have "portfolioData ?s' = None"
    by (simp add: commit_def handleBackToForm_def split: option.splits)
  moreover have "displayMode ?s' = EDITING"
    by (simp add: displayMode_commit) (simp add: displayMode_def handleBackToForm_def)
  moreover have "formData ?s' = Some initialFormData"
    using form by (simp add: commit_def handleBackToForm_def)
  ultimately show ?thesis by (simp add: initialFormData_def)
qed

theorem reset_from_full_witness:
  "\<exists>s r s'. run initialApp session = Some s \<and> reachable s \<and> displayMode s = FULL
      \<and> portfolioData s = Some r \<and> name r = str ''Ada''
      \<and> experience r = [Object [Title \<mapsto> str ''Dev'']]
      \<and> fire s BackToForm = Some s' \<and> portfolioData s' = None \<and> displayMode s' = EDITING
      \<and> formData s' = Some initialFormData"
proof -
  from session_result obtain s r where
    run: "run initialApp session = Some s" and full: "displayMode s = FULL" and
    r: "portfolioData s = Some r" "name r = str ''Ada''"
       "experience r = [Object [Title \<mapsto> str ''Dev'']]"
    by blast
  have reach: "reachable s"
    using reachable.start run by (rule run_reachable)
  from reset_from_full [OF reach full] obtain s' where
    "fire s BackToForm = Some s'" "portfolioData s' = None" "displayMode s' = EDITING"
    "formData s' = Some initialFormData"
    by (auto simp: initialFormData_def)
  with run reach full r show ?thesis by blast
qed


section \<open>The summary card\<close>

text \<open>
  C10. The card has a link for the LinkedIn, GitHub and website URL exactly when that URL
  is not empty, with the URL as target, and no other link; the Twitter URL appears on
  the card neither as a link nor as text, whatever its value.
\<close>

theorem ProfileCard_links:
  "(Link data_linkedin u \<in> set (ProfileCard data) \<longleftrightarrow> u = linkedin data \<and> linkedin data \<noteq> [])
   \<and> (Link data_github u \<in> set (ProfileCard data) \<longleftrightarrow> u = github data \<and> github data \<noteq> [])
   \<and> (Link data_website u \<in> set (ProfileCard data) \<longleftrightarrow> u = website data \<and> website data \<noteq> [])
   \<and> Link data_twitter u \<notin> set (ProfileCard data)
   \<and> Text data_twitter u \<notin> set (ProfileCard data)
   \<and> (\<forall>k w. Link k w \<in> set (ProfileCard data) \<longrightarrow>
         k = data_linkedin \<or> k = data_github \<or> k = data_website)"
  by (auto simp: ProfileCard_def)

theorem ProfileCard_links_witness:
  "twitter exampleData \<noteq> []
   \<and> Link data_twitter (twitter exampleData) \<notin> set (ProfileCard exampleData)
   \<and> Link data_linkedin (linkedin exampleData) \<in> set (ProfileCard exampleData)
   \<and> Link data_github (github exampleData) \<notin> set (ProfileCard exampleData)"
proof -
  have "twitter exampleData \<noteq> []" "linkedin exampleData \<noteq> []" "github exampleData = []"
    by (simp_all add: exampleData_def str_def)
  with ProfileCard_links [of "twitter exampleData" exampleData]
    ProfileCard_links [of "linkedin exampleData" exampleData]
    ProfileCard_links [of "github exampleData" exampleData]
  show ?thesis by simp
qed


section \<open>The two templates\<close>

lemma displays_iff: "displays ps k \<longleftrightarrow> (\<exists>v. Text k v \<in> set ps \<or> Link k v \<in> set ps)"
proof
  assume "displays ps k"
  then obtain x where x: "x \<in> set ps"
    and c: "case x of Text k' _ \<Rightarrow> k' = k | Link k' _ \<Rightarrow> k' = k | _ \<Rightarrow> False"
    by (auto simp: displays_def list_ex_iff)
  show "\<exists>v. Text k v \<in> set ps \<or> Link k v \<in> set ps"
  proof (cases x)
    case (Text k' v)
    with x c have "Text k v \<in> set ps" by simp
    then show ?thesis by blast
  next
    case (Link k' v)
    with x c have "Link k v \<in> set ps" by simp
    then show ?thesis by blast
  qed (use c in simp_all)
next
  assume "\<exists>v. Text k v \<in> set ps \<or> Link k v \<in> set ps"
  then show "displays ps k"
    by (force simp: displays_def list_ex_iff)
qed

lemma mapEntries_None: "mapEntries f i xs = None \<longleftrightarrow> Undefined \<in> set xs"
  by (induction f i xs rule: mapEntries.induct) auto

lemma mapEntries_mem:
  "mapEntries f i xs = Some ps \<Longrightarrow>
   x \<in> set ps \<longleftrightarrow> (\<exists>j e. j < length xs \<and> xs ! j = Object e \<and> x \<in> set (f (i + j) e))"
proof (induction f i xs arbitrary: ps rule: mapEntries.induct)
  case (1 f i)
  then show ?case by simp
next
  case (2 f i xs)
  then have "x \<in> set ps \<longleftrightarrow> (\<exists>j e. j < length xs \<and> xs ! j = Object e \<and> x \<in> set (f (Suc i + j) e))"
    by simp
  also have "\<dots> \<longleftrightarrow> (\<exists>j e. j < length (Empty # xs) \<and> (Empty # xs) ! j = Object e \<and> x \<in> set (f (i + j) e))"
    (is "?L \<longleftrightarrow> ?R")
  proof
    assume ?L
    then obtain j e where "j < length xs" "xs ! j = Object e" "x \<in> set (f (Suc i + j) e)" by blast
    then have "Suc j < length (Empty # xs) \<and> (Empty # xs) ! Suc j = Object e \<and> x \<in> set (f (i + Suc j) e)"
      by simp
    then show ?R by blast
  next
    assume ?R
    then obtain j e where j: "j < length (Empty # xs)" "(Empty # xs) ! j = Object e" "x \<in> set (f (i + j) e)"
      by blast
    then obtain j' where "j = Suc j'" by (cases j) auto
    with j show ?L by auto
  qed
  finally show ?case .
next
  case (3 f i xs)
  then show ?case by simp
next
  case (4 f i e0 xs)
  then obtain qs where qs: "mapEntries f (Suc i) xs = Some qs" and ps: "ps = f i e0 @ qs"
    by auto
  from "4.IH" [OF qs]
  have IH: "x \<in> set qs \<longleftrightarrow> (\<exists>j e. j < length xs \<and> xs ! j = Object e \<and> x \<in> set (f (Suc i + j) e))" .
  have "(\<exists>j e. j < length (Object e0 # xs) \<and> (Object e0 # xs) ! j = Object e \<and> x \<in> set (f (i + j) e))
        \<longleftrightarrow> x \<in> set (f i e0) \<or> (\<exists>j e. j < length xs \<and> xs ! j = Object e \<and> x \<in> set (f (Suc i + j) e))"
    (is "?L \<longleftrightarrow> ?R")
  proof
    assume ?L
    then obtain j e where j: "j < length (Object e0 # xs)" "(Object e0 # xs) ! j = Object e"
      "x \<in> set (f (i + j) e)" by blast
    show ?R
    proof (cases j)
      case 0
      with j show ?thesis by simp
    next
      case (Suc j')
      with j show ?thesis by auto
    qed
  next
    assume ?R
    then show ?L
    proof
      assume "x \<in> set (f i e0)"
      then have "0 < length (Object e0 # xs) \<and> (Object e0 # xs) ! 0 = Object e0 \<and> x \<in> set (f (i + 0) e0)"
        by simp
      then show ?L by blast
    next
      assume "\<exists>j e. j < length xs \<and> xs ! j = Object e \<and> x \<in> set (f (Suc i + j) e)"
      then obtain j e where "j < length xs" "xs ! j = Object e" "x \<in> set (f (Suc i + j) e)" by blast
      then have "Suc j < length (Object e0 # xs) \<and> (Object e0 # xs) ! Suc j = Object e
          \<and> x \<in> set (f (i + Suc j) e)"
        by simp
      then show ?L by blast
    qed
  qed
  with IH ps show ?case by simp
qed

lemma listSection_None: "listSection h f xs = None \<longleftrightarrow> Undefined \<in> set xs"
  by (auto simp: listSection_def mapEntries_None)

lemma listSection_mem:
  assumes "listSection h f xs = Some ps"
  shows "x \<in> set ps \<longleftrightarrow>
     (x = Heading h \<and> xs \<noteq> [])
     \<or> (\<exists>j e. j < length xs \<and> xs ! j = Object e \<and> x \<in> set (f j e))"
proof (cases "xs = []")
  case True
  with assms show ?thesis by (simp add: listSection_def)
next
  case False
  with assms obtain qs where qs: "mapEntries f 0 xs = Some qs" and ps: "ps = Heading h # qs"
    by (auto simp: listSection_def)
  from mapEntries_mem [OF qs, of x] ps False show ?thesis by auto
qed

lemma Template1_None:
  "Template1 data = None \<longleftrightarrow>
     Undefined \<in> set (experience data) \<union> set (education data) \<union> set (projects data)"
  by (simp add: Template1_def bind_eq_None_conv listSection_None)

lemma Template2_None:
  "Template2 data = None \<longleftrightarrow>
     Undefined \<in> set (experience data) \<union> set (education data) \<union> set (projects data)"
  by (simp add: Template2_def bind_eq_None_conv listSection_None)


lemma Template1_mem:
  assumes "Template1 data = Some ps"
  shows "x \<in> set ps \<longleftrightarrow>
     x \<in> {Text data_name (name data), Text data_title (title data),
          Img (imageSrc (str ''https://placehold.co/150x150/E0F2F7/0288D1?text='') data),
          Heading (str ''About Me''), Text data_bio (bio data),
          Heading (str ''Contact''), Heading (str ''Social'')}
     \<or> x \<in> set (contactItems data) \<or> x \<in> set (Template1_social data)
     \<or> x \<in> set (skillsSection (skills data))
     \<or> (x = Heading (str ''Experience'') \<and> experience data \<noteq> [])
     \<or> (\<exists>j e. j < length (experience data) \<and> experience data ! j = Object e
           \<and> x \<in> set (Template1_experience j e))
     \<or> (x = Heading (str ''Education'') \<and> education data \<noteq> [])
     \<or> (\<exists>j e. j < length (education data) \<and> education data ! j = Object e
           \<and> x \<in> set (Template1_education j e))
     \<or> (x = Heading (str ''Projects'') \<and> projects data \<noteq> [])
     \<or> (\<exists>j e. j < length (projects data) \<and> projects data ! j = Object e
           \<and> x \<in> set (Template1_project j e))"
proof -
  from assms obtain ex ed pr where
    ex: "listSection (str ''Experience'') Template1_experience (experience data) = Some ex" and
    ed: "listSection (str ''Education'') Template1_education (education data) = Some ed" and
    pr: "listSection (str ''Projects'') Template1_project (projects data) = Some pr" and
    ps: "ps = [Text data_name (name data), Text data_title (title data),
         Img (imageSrc (str ''https://placehold.co/150x150/E0F2F7/0288D1?text='') data),
         Heading (str ''About Me''), Text data_bio (bio data),
         Heading (str ''Contact'')]
        @ contactItems data
        @ [Heading (str ''Social'')]
        @ Template1_social data
        @ skillsSection (skills data)
        @ ex @ ed @ pr"
    by (auto simp: Template1_def split: Option.bind_splits)
  show ?thesis
    unfolding ps set_append listSection_mem [OF ex] listSection_mem [OF ed] listSection_mem [OF pr]
      Un_iff
    by (simp only: list.set insert_iff empty_iff) blast
qed

lemma Template2_mem:
  assumes "Template2 data = Some ps"
  shows "x \<in> set ps \<longleftrightarrow>
     x \<in> {Img (imageSrc (str ''https://placehold.co/180x180/0288D1/FFFFFF?text='') data),
          Text data_name (name data), Text data_title (title data),
          Heading (str ''About Me''), Text data_bio (bio data),
          Heading (str ''Contact'')}
     \<or> x \<in> set (contactItems data) \<or> x \<in> set (Template2_social data)
     \<or> x \<in> set (skillsSection (skills data))
     \<or> (x = Heading (str ''Experience'') \<and> experience data \<noteq> [])
     \<or> (\<exists>j e. j < length (experience data) \<and> experience data ! j = Object e
           \<and> x \<in> set (Template2_experience j e))
     \<or> (x = Heading (str ''Education'') \<and> education data \<noteq> [])
     \<or> (\<exists>j e. j < length (education data) \<and> education data ! j = Object e
           \<and> x \<in> set (Template2_education j e))
     \<or> (x = Heading (str ''Projects'') \<and> projects data \<noteq> [])
     \<or> (\<exists>j e. j < length (projects data) \<and> projects data ! j = Object e
           \<and> x \<in> set (Template2_project j e))"
proof -
  from assms obtain ex ed pr where
    ex: "listSection (str ''Experience'') Template2_experience (experience data) = Some ex" and
    ed: "listSection (str ''Education'') Template2_education (education data) = Some ed" and
    pr: "listSection (str ''Projects'') Template2_project (projects data) = Some pr" and
    ps: "ps = [Img (imageSrc (str ''https://placehold.co/180x180/0288D1/FFFFFF?text='') data),
         Text data_name (name data), Text data_title (title data)]
        @ Template2_social data
        @ [Heading (str ''About Me''), Text data_bio (bio data),
           Heading (str ''Contact'')]
        @ contactItems data
        @ skillsSection (skills data)
        @ ex @ ed @ pr"
    by (auto simp: Template2_def split: Option.bind_splits)
  show ?thesis
    unfolding ps set_append listSection_mem [OF ex] listSection_mem [OF ed] listSection_mem [OF pr]
      Un_iff
    by (simp only: list.set insert_iff empty_iff) blast
qed

lemma headings_distinct:
  "str ''Experience'' \<noteq> str ''About Me''" "str ''Experience'' \<noteq> str ''Contact''"
  "str ''Experience'' \<noteq> str ''Social''" "str ''Experience'' \<noteq> str ''Skills''"
  "str ''Experience'' \<noteq> str ''Education''" "str ''Experience'' \<noteq> str ''Projects''"
  "str ''Education'' \<noteq> str ''About Me''" "str ''Education'' \<noteq> str ''Contact''"
  "str ''Education'' \<noteq> str ''Social''" "str ''Education'' \<noteq> str ''Skills''"
  "str ''Education'' \<noteq> str ''Projects''"
  "str ''Projects'' \<noteq> str ''About Me''" "str ''Projects'' \<noteq> str ''Contact''"
  "str ''Projects'' \<noteq> str ''Social''" "str ''Projects'' \<noteq> str ''Skills''"
  "str ''Skills'' \<noteq> str ''About Me''" "str ''Skills'' \<noteq> str ''Contact''"
  "str ''Skills'' \<noteq> str ''Social''"
  by (simp_all add: str_def)

lemma no_heading_in_parts:
  "Heading h \<notin> set (contactItems data)" "Heading h \<notin> set (Template1_social data)"
  "Heading h \<notin> set (Template2_social data)"
  "Heading h \<notin> set (Template1_experience j e)" "Heading h \<notin> set (Template2_experience j e)"
  "Heading h \<notin> set (Template1_education j e)" "Heading h \<notin> set (Template2_education j e)"
  "Heading h \<notin> set (Template1_project j e)" "Heading h \<notin> set (Template2_project j e)"
  by (simp_all add: contactItems_def Template1_social_def Template2_social_def
      Template1_experience_def Template2_experience_def Template1_education_def
      Template2_education_def Template1_project_def Template2_project_def)

lemma heading_in_skillsSection:
  "Heading h \<in> set (skillsSection xs) \<longleftrightarrow> h = str ''Skills'' \<and> xs \<noteq> []"
  by (auto simp: skillsSection_def skillSpans_def)

lemma Template1_heading:
  "Template1 data = Some ps \<Longrightarrow> Heading (sectionHeading k) \<in> set ps \<longleftrightarrow> getList k data \<noteq> []"
  by (cases k)
     (simp_all add: Template1_mem no_heading_in_parts heading_in_skillsSection headings_distinct
        headings_distinct [symmetric])

lemma Template2_heading:
  "Template2 data = Some ps \<Longrightarrow> Heading (sectionHeading k) \<in> set ps \<longleftrightarrow> getList k data \<noteq> []"
  by (cases k)
     (simp_all add: Template2_mem no_heading_in_parts heading_in_skillsSection headings_distinct
        headings_distinct [symmetric])

lemma Template1_skills:
  "Template1 data = Some ps \<Longrightarrow> Heading (str ''Skills'') \<in> set ps \<longleftrightarrow> skills data \<noteq> []"
  by (simp add: Template1_mem no_heading_in_parts heading_in_skillsSection headings_distinct
        headings_distinct [symmetric])

lemma Template2_skills:
  "Template2 data = Some ps \<Longrightarrow> Heading (str ''Skills'') \<in> set ps \<longleftrightarrow> skills data \<noteq> []"
  by (simp add: Template2_mem no_heading_in_parts heading_in_skillsSection headings_distinct
        headings_distinct [symmetric])

lemma entry_not_elsewhere:
  "Text (data_entry k i f) v \<notin> set (contactItems data)"
  "Text (data_entry k i f) v \<notin> set (Template1_social data)"
  "Text (data_entry k i f) v \<notin> set (Template2_social data)"
  "Text (data_entry k i f) v \<notin> set (skillsSection xs)"
  "Link (data_entry k i f) v \<notin> set (contactItems data)"
  "Link (data_entry k i f) v \<notin> set (Template1_social data)"
  "Link (data_entry k i f) v \<notin> set (Template2_social data)"
  "Link (data_entry k i f) v \<notin> set (skillsSection xs)"
  by (auto simp: contactItems_def Template1_social_def Template2_social_def skillsSection_def
      skillSpans_def)

lemma Template1_entry_field:
  assumes "Template1 data = Some ps" and "i < length (getList k data)"
    and "getList k data ! i = Object e"
    and "(k, f) \<in> {(Education, Description), (Projects, Technologies),
                   (Projects, ProjectUrl), (Projects, GithubUrl)}"
  shows "displays ps (data_entry k i f) \<longleftrightarrow> truthy (e f)"
  using assms(2-)
  unfolding displays_iff Template1_mem [OF assms(1)]
  by (auto simp: entry_not_elsewhere Template1_experience_def Template1_education_def
      Template1_project_def)
    blast+

lemma Template2_entry_field:
  assumes "Template2 data = Some ps" and "i < length (getList k data)"
    and "getList k data ! i = Object e"
    and "(k, f) \<in> {(Education, Description), (Projects, Technologies),
                   (Projects, ProjectUrl), (Projects, GithubUrl)}"
  shows "displays ps (data_entry k i f) \<longleftrightarrow> truthy (e f)"
  using assms(2-)
  unfolding displays_iff Template2_mem [OF assms(1)]
  by (auto simp: entry_not_elsewhere Template2_experience_def Template2_education_def
      Template2_project_def)
    blast+

lemma same_data_in_parts:
  assumes "isData x"
  shows "x \<in> set (Template1_social data) \<longleftrightarrow> x \<in> set (Template2_social data)"
    and "x \<in> set (Template1_experience j e) \<longleftrightarrow> x \<in> set (Template2_experience j e)"
    and "x \<in> set (Template1_education j e) \<longleftrightarrow> x \<in> set (Template2_education j e)"
    and "x \<in> set (Template1_project j e) \<longleftrightarrow> x \<in> set (Template2_project j e)"
  using assms
  by (auto simp: Template1_social_def Template2_social_def Template1_experience_def
      Template2_experience_def Template1_education_def Template2_education_def
      Template1_project_def Template2_project_def)

lemma Templates_same_data:
  assumes "Template1 data = Some p1" and "Template2 data = Some p2"
  shows "{x \<in> set p1. isData x} = {x \<in> set p2. isData x}"
proof -
  have "x \<in> set p1 \<longleftrightarrow> x \<in> set p2" if "isData x" for x
    unfolding Template1_mem [OF assms(1)] Template2_mem [OF assms(2)]
      same_data_in_parts [OF that]
    using that by (cases x) simp_all
  then show ?thesis by blast
qed

lemma template_ids: "str ''template1'' \<noteq> str ''template2''"
  by (simp add: str_def)

text \<open>
  C3. For every record, the page under \<open>template1\<close> fails exactly when the page under
  \<open>template2\<close> does (an \<open>undefined\<close> slot in a list), and otherwise both show the same
  data: the same text and link parts with the same values; the heading of the experience,
  education and projects section is there exactly when the list is not empty, the Skills
  heading exactly when there are skills, and for the sub-record at a position the
  education description, the project technologies, the project URL and the repository
  URL are displayed exactly when they are present and not empty, in both templates alike.
  (Template 1 groups the profile links under a Social heading and Template 2 puts them in
  the header; headings, labels and the placeholder image are presentation.)
\<close>

theorem templates_include_same_data:
  "(PortfolioPage data (str ''template1'') = None
      \<longleftrightarrow> PortfolioPage data (str ''template2'') = None)
   \<and> (PortfolioPage data (str ''template1'') = Some p1
        \<and> PortfolioPage data (str ''template2'') = Some p2 \<longrightarrow>
        {x \<in> set p1. isData x} = {x \<in> set p2. isData x}
      \<and> (\<forall>k. (Heading (sectionHeading k) \<in> set p1 \<longleftrightarrow> getList k data \<noteq> [])
            \<and> (Heading (sectionHeading k) \<in> set p2 \<longleftrightarrow> getList k data \<noteq> []))
      \<and> (Heading (str ''Skills'') \<in> set p1 \<longleftrightarrow> skills data \<noteq> [])
      \<and> (Heading (str ''Skills'') \<in> set p2 \<longleftrightarrow> skills data \<noteq> [])
      \<and> (\<forall>k f i e.
            (k, f) \<in> {(Education, Description), (Projects, Technologies),
                       (Projects, ProjectUrl), (Projects, GithubUrl)}
            \<and> i < length (getList k data) \<and> getList k data ! i = Object e \<longrightarrow>
            (displays p1 (data_entry k i f) \<longleftrightarrow> truthy (e f))
          \<and> (displays p2 (data_entry k i f) \<longleftrightarrow> truthy (e f))))"
proof -
  have page1: "PortfolioPage data (str ''template1'') = Template1 data"
    and page2: "PortfolioPage data (str ''template2'') = Template2 data"
    by (simp_all add: PortfolioPage_def template_ids)
  have fails: "Template1 data = None \<longleftrightarrow> Template2 data = None"
    by (simp only: Template1_None Template2_None)
  have shown: "{x \<in> set p1. isData x} = {x \<in> set p2. isData x}
      \<and> (\<forall>k. (Heading (sectionHeading k) \<in> set p1 \<longleftrightarrow> getList k data \<noteq> [])
            \<and> (Heading (sectionHeading k) \<in> set p2 \<longleftrightarrow> getList k data \<noteq> []))
      \<and> (Heading (str ''Skills'') \<in> set p1 \<longleftrightarrow> skills data \<noteq> [])
      \<and> (Heading (str ''Skills'') \<in> set p2 \<longleftrightarrow> skills data \<noteq> [])
      \<and> (\<forall>k f i e.
            (k, f) \<in> {(Education, Description), (Projects, Technologies),
                       (Projects, ProjectUrl), (Projects, GithubUrl)}
            \<and> i < length (getList k data) \<and> getList k data ! i = Object e \<longrightarrow>
            (displays p1 (data_entry k i f) \<longleftrightarrow> truthy (e f))
          \<and> (displays p2 (data_entry k i f) \<longleftrightarrow> truthy (e f)))"
    if t1: "Template1 data = Some p1" and t2: "Template2 data = Some p2"
  proof (intro conjI allI impI)
    show "{x \<in> set p1. isData x} = {x \<in> set p2. isData x}"
      using t1 t2 by (rule Templates_same_data)
  next
    fix k
    show "Heading (sectionHeading k) \<in> set p1 \<longleftrightarrow> getList k data \<noteq> []"
      using t1 by (rule Template1_heading)
    show "Heading (sectionHeading k) \<in> set p2 \<longleftrightarrow> getList k data \<noteq> []"
      using t2 by (rule Template2_heading)
  next
    show "Heading (str ''Skills'') \<in> set p1 \<longleftrightarrow> skills data \<noteq> []"
      using t1 by (rule Template1_skills)
    show "Heading (str ''Skills'') \<in> set p2 \<longleftrightarrow> skills data \<noteq> []"
      using t2 by (rule Template2_skills)
  next
    fix k f i e
    assume a: "(k, f) \<in> {(Education, Description), (Projects, Technologies),
                       (Projects, ProjectUrl), (Projects, GithubUrl)}
            \<and> i < length (getList k data) \<and> getList k data ! i = Object e"
    show "displays p1 (data_entry k i f) \<longleftrightarrow> truthy (e f)"
      using a Template1_entry_field [OF t1, of i k e f] by blast
    show "displays p2 (data_entry k i f) \<longleftrightarrow> truthy (e f)"
      using a Template2_entry_field [OF t2, of i k e f] by blast
  qed
  show ?thesis
    unfolding page1 page2 using fails shown by blast
qed

theorem templates_include_same_data_witness:
  "\<exists>p1 p2. PortfolioPage exampleData (str ''template1'') = Some p1
     \<and> PortfolioPage exampleData (str ''template2'') = Some p2
     \<and> {x \<in> set p1. isData x} = {x \<in> set p2. isData x}
     \<and> Heading (str ''Education'') \<in> set p1 \<and> Heading (str ''Education'') \<in> set p2
     \<and> Heading (str ''Experience'') \<notin> set p1 \<and> Heading (str ''Experience'') \<notin> set p2
     \<and> displays p1 (data_entry Projects 0 ProjectUrl)
     \<and> displays p2 (data_entry Projects 0 ProjectUrl)
     \<and> \<not> displays p1 (data_entry Projects 0 GithubUrl)
     \<and> \<not> displays p2 (data_entry Education 0 Description)"
proof -
  have "Template1 exampleData \<noteq> None" "Template2 exampleData \<noteq> None"
    by (simp_all add: Template1_None Template2_None exampleData_def)
  then obtain p1 p2 where
    p1: "PortfolioPage exampleData (str ''template1'') = Some p1" and
    p2: "PortfolioPage exampleData (str ''template2'') = Some p2"
    by (auto simp: PortfolioPage_def template_ids)
  note T = templates_include_same_data [of exampleData p1 p2]
  from T p1 p2 have same: "{x \<in> set p1. isData x} = {x \<in> set p2. isData x}"
    by blast
  from T p1 p2 have heads:
    "\<forall>k. (Heading (sectionHeading k) \<in> set p1 \<longleftrightarrow> getList k exampleData \<noteq> [])
        \<and> (Heading (sectionHeading k) \<in> set p2 \<longleftrightarrow> getList k exampleData \<noteq> [])"
    by blast
  from heads [rule_format, of Education]
  have edu: "Heading (str ''Education'') \<in> set p1 \<and> Heading (str ''Education'') \<in> set p2"
    by (simp add: exampleData_def)
  from heads [rule_format, of Experience]
  have exp: "Heading (str ''Experience'') \<notin> set p1 \<and> Heading (str ''Experience'') \<notin> set p2"
    by (simp add: exampleData_def)
  from T p1 p2 have fields:
    "\<forall>k f i e.
        (k, f) \<in> {(Education, Description), (Projects, Technologies),
                   (Projects, ProjectUrl), (Projects, GithubUrl)}
        \<and> i < length (getList k exampleData) \<and> getList k exampleData ! i = Object e \<longrightarrow>
        (displays p1 (data_entry k i f) \<longleftrightarrow> truthy (e f))
      \<and> (displays p2 (data_entry k i f) \<longleftrightarrow> truthy (e f))"
    by blast
  have proj: "0 < length (getList Projects exampleData)
      \<and> getList Projects exampleData ! 0
          = Object [Name \<mapsto> str ''Engine'', ProjectUrl \<mapsto> str ''https://e.org'']"
    by (simp add: exampleData_def)
  have educ: "0 < length (getList Education exampleData)
      \<and> getList Education exampleData ! 0 = Object [Degree \<mapsto> str ''BSc'']"
    by (simp add: exampleData_def)
  from fields [rule_format, of Projects ProjectUrl 0] proj
  have url: "displays p1 (data_entry Projects 0 ProjectUrl)
      \<and> displays p2 (data_entry Projects 0 ProjectUrl)"
    by (simp add: truthy_def str_def)
  from fields [rule_format, of Projects GithubUrl 0] proj
  have repo: "\<not> displays p1 (data_entry Projects 0 GithubUrl)"
    by (simp add: truthy_def)
  from fields [rule_format, of Education Description 0] educ
  have desc: "\<not> displays p2 (data_entry Education 0 Description)"
    by (simp add: truthy_def)
  from p1 p2 same edu exp url repo desc show ?thesis by blast
qed

end
